theory Spec2Isabelle
  imports Complex_Main "HOL-Library.Word"
begin

unbundle bit_operations_syntax

section \<open>Tremor / dyskinesia detector (src/src/main.cpp)\<close>

text \<open>
  A shallow embedding of \<^verbatim>\<open>main.cpp\<close>: the configuration block, the conversion of raw
  sensor bytes, the calibration loop, the acquisition loop of one window, the spectral
  summary and threshold logic of the \<^verbatim>\<open>analyze\<close> closure, the stability filter and the LED
  feedback.

  Conventions of the embedding.
  \<^item> C \<^verbatim>\<open>float\<close> values are modelled as \<^typ>\<open>real\<close>: \<^verbatim>\<open>sqrtf\<close>, \<^verbatim>\<open>fmaxf\<close> and \<^verbatim>\<open>fminf\<close> are
    \<^const>\<open>sqrt\<close>, \<^const>\<open>max\<close> and \<^const>\<open>min\<close>; rounding errors of single precision are
    not modelled. Division by a zero divisor, where IEEE arithmetic and HOL differ, is
    written out (\<open>ratio_gt\<close> below).
  \<^item> \<^verbatim>\<open>uint8_t\<close> is \<^typ>\<open>8 word\<close>, the promoted \<^verbatim>\<open>int\<close> of the byte expressions is
    \<^typ>\<open>32 word\<close>, \<^verbatim>\<open>int16_t\<close> is \<^typ>\<open>16 word\<close>.
  \<^item> The two stability counters and \<^verbatim>\<open>STABLE_WINDOWS\<close> are C \<^verbatim>\<open>int\<close>, modelled as
    \<^typ>\<open>32 word\<close> read with \<^const>\<open>sint\<close>: \<^verbatim>\<open>++\<close> on the largest value wraps to the smallest
    (the C++ standard leaves that overflow undefined; the target wraps). The loop indices
    \<^verbatim>\<open>idx\<close> and \<^verbatim>\<open>i\<close> stay below \<^verbatim>\<open>N\<close> and \<^verbatim>\<open>CALIBRATION_WINDOWS\<close> and are \<^typ>\<open>nat\<close>.
  \<^item> The sensor bus is the environment: each tick of the sample clock on which the loop
    runs its body is a \<open>tick\<close> value holding what the two \<^verbatim>\<open>rN\<close> calls return.
\<close>

subsection \<open>Configuration block\<close>

definition ACC_T_TH :: real where "ACC_T_TH = 0.10"
definition ACC_D_TH :: real where "ACC_D_TH = 0.10"
definition GYR_T_TH :: real where "GYR_T_TH = 10.0"
definition GYR_D_TH :: real where "GYR_D_TH = 10.0"
definition PEAK_TO_RMS :: real where "PEAK_TO_RMS = 1.5"

definition STABLE_WINDOWS :: "32 word" where "STABLE_WINDOWS = 1"
definition CALIBRATION_WINDOWS :: nat where "CALIBRATION_WINDOWS = 5"

definition Fs :: nat where "Fs = 104"
definition WIN_S :: nat where "WIN_S = 1"
definition N :: nat where "N = Fs * WIN_S"
definition FFTN :: nat where "FFTN = 256"

text \<open>The scale factors written as literals in both loops (g per LSB, dps per LSB).\<close>

definition ACC_LSB :: real where "ACC_LSB = 0.000061"
definition GYR_LSB :: real where "GYR_LSB = 0.00875"

subsection \<open>Raw readings\<close>

text \<open>The six bytes \<^verbatim>\<open>uint8_t data[6]\<close> that one \<^verbatim>\<open>rN\<close> call fills.\<close>

datatype data6 = Data6 (d0: "8 word") (d1: "8 word") (d2: "8 word")
                       (d3: "8 word") (d4: "8 word") (d5: "8 word")

text \<open>
  \<^verbatim>\<open>data[0] | (data[1] << 8)\<close>: both bytes are promoted to \<^verbatim>\<open>int\<close> before the shift and
  the bitwise or, so the expression has type \<^verbatim>\<open>int\<close>.
\<close>

definition assemble :: "8 word \<Rightarrow> 8 word \<Rightarrow> 32 word" where
  "assemble lo hi = ucast lo OR push_bit 8 (ucast hi)"

text \<open>
  Calibration (lines 156-164) multiplies the \<^verbatim>\<open>int\<close> expression by the scale factor as it
  is. Acquisition (lines 195-203) first stores it in an \<^verbatim>\<open>int16_t\<close>.
\<close>

definition cal_raw :: "8 word \<Rightarrow> 8 word \<Rightarrow> int" where
  "cal_raw lo hi = sint (assemble lo hi)"

definition live_raw :: "8 word \<Rightarrow> 8 word \<Rightarrow> int" where
  "live_raw lo hi = sint (ucast (assemble lo hi) :: 16 word)"

text \<open>
  One iteration of a sampling loop past the \<^verbatim>\<open>tick_flag\<close> test: the return code and the
  bytes of \<^verbatim>\<open>rN(OUT_XL_L, data)\<close>, and those of \<^verbatim>\<open>rN(OUT_G_L, data)\<close>, which the loop calls
  only when the first returned 0.
\<close>

record tick =
  acc_rc :: int
  acc_data :: data6
  gyr_rc :: int
  gyr_data :: data6

subsection \<open>Global state\<close>

record globals =
  stable_tremor :: "32 word"
  stable_dyskinesia :: "32 word"
  baseline_acc :: "real list"
  baseline_gyr :: "real list"
  is_calibrated :: bool
  ax :: "real list"
  ay :: "real list"
  az :: "real list"
  gx :: "real list"
  gy :: "real list"
  gz :: "real list"
  led_tremor :: real
  led_tremor_period_ms :: nat
  led_dyskinesia :: real
  led_dyskinesia_period_ms :: nat
  led_status :: bool
  led_power :: bool

text \<open>The state when the calibration loop starts: static initialisers and LED setup.\<close>

definition boot :: globals where
  "boot = \<lparr> stable_tremor = 0, stable_dyskinesia = 0,
            baseline_acc = [0, 0, 0], baseline_gyr = [0, 0, 0],
            is_calibrated = False,
            ax = replicate FFTN 0, ay = replicate FFTN 0, az = replicate FFTN 0,
            gx = replicate FFTN 0, gy = replicate FFTN 0, gz = replicate FFTN 0,
            led_tremor = 0, led_tremor_period_ms = 1,
            led_dyskinesia = 0, led_dyskinesia_period_ms = 1,
            led_status = False, led_power = False \<rparr>"

text \<open>\<^verbatim>\<open>xs[i] += v\<close> on a float array.\<close>

definition add_at :: "real list \<Rightarrow> nat \<Rightarrow> real \<Rightarrow> real list" where
  "add_at xs i v = xs[i := xs ! i + v]"

subsection \<open>Calibration (lines 146-176)\<close>

text \<open>
  The body of the inner \<^verbatim>\<open>while (idx < N)\<close> loop on one tick. A failed accelerometer read
  leaves at once; the three accelerometer sums are updated before the gyroscope is read.
\<close>

definition calib_tick :: "tick \<Rightarrow> nat \<times> globals \<Rightarrow> nat \<times> globals" where
  "calib_tick t = (\<lambda>(idx, g).
     if acc_rc t \<noteq> 0 then (idx, g)
     else
       let data = acc_data t;
           g = g\<lparr>baseline_acc := add_at (baseline_acc g) 0 (real_of_int (cal_raw (d0 data) (d1 data)) * ACC_LSB)\<rparr>;
           g = g\<lparr>baseline_acc := add_at (baseline_acc g) 1 (real_of_int (cal_raw (d2 data) (d3 data)) * ACC_LSB)\<rparr>;
           g = g\<lparr>baseline_acc := add_at (baseline_acc g) 2 (real_of_int (cal_raw (d4 data) (d5 data)) * ACC_LSB)\<rparr>
       in
         if gyr_rc t \<noteq> 0 then (idx, g)
         else
           let data = gyr_data t;
               g = g\<lparr>baseline_gyr := add_at (baseline_gyr g) 0 (real_of_int (cal_raw (d0 data) (d1 data)) * GYR_LSB)\<rparr>;
               g = g\<lparr>baseline_gyr := add_at (baseline_gyr g) 1 (real_of_int (cal_raw (d2 data) (d3 data)) * GYR_LSB)\<rparr>;
               g = g\<lparr>baseline_gyr := add_at (baseline_gyr g) 2 (real_of_int (cal_raw (d4 data) (d5 data)) * GYR_LSB)\<rparr>
           in (idx + 1, g))"

text \<open>
  The inner loop over the ticks the clock delivers. It returns the state and the ticks not
  yet consumed once \<^verbatim>\<open>idx\<close> has reached \<^verbatim>\<open>N\<close>; \<open>None\<close> when the ticks run out first (the
  loop is still waiting).
\<close>

fun calib_window :: "tick list \<Rightarrow> nat \<times> globals \<Rightarrow> (globals \<times> tick list) option" where
  "calib_window [] (idx, g) = (if idx < N then None else Some (g, []))"
| "calib_window (t # ts) (idx, g) =
     (if idx < N then calib_window ts (calib_tick t (idx, g)) else Some (g, t # ts))"

text \<open>\<^verbatim>\<open>for (int i = 0; i < CALIBRATION_WINDOWS; i++)\<close>, each round starting at \<^verbatim>\<open>idx = 0\<close>.\<close>

function calib_for :: "nat \<Rightarrow> tick list \<Rightarrow> globals \<Rightarrow> (globals \<times> tick list) option" where
  "calib_for i ts g =
     (if i < CALIBRATION_WINDOWS then
        (case calib_window ts (0, g) of
           None \<Rightarrow> None
         | Some (g', ts') \<Rightarrow> calib_for (i + 1) ts' g')
      else Some (g, ts))"
  by pat_completeness auto
termination
  by (relation "measure (\<lambda>(i, ts, g). CALIBRATION_WINDOWS - i)") auto

text \<open>Lines 172-176: the three divisions per sensor, then the flag.\<close>

definition baseline_div :: "nat \<Rightarrow> globals \<Rightarrow> globals" where
  "baseline_div i g =
     (let g = g\<lparr>baseline_acc := (baseline_acc g)[i := baseline_acc g ! i / real (CALIBRATION_WINDOWS * N)]\<rparr>
      in g\<lparr>baseline_gyr := (baseline_gyr g)[i := baseline_gyr g ! i / real (CALIBRATION_WINDOWS * N)]\<rparr>)"

definition calibrate :: "tick list \<Rightarrow> globals \<Rightarrow> (globals \<times> tick list) option" where
  "calibrate ts g =
     (case calib_for 0 ts g of
        None \<Rightarrow> None
      | Some (g', ts') \<Rightarrow> Some ((fold baseline_div [0, 1, 2] g')\<lparr>is_calibrated := True\<rparr>, ts'))"

subsection \<open>Acquisition of one window (lines 186-225)\<close>

definition acquire_tick :: "tick \<Rightarrow> nat \<times> globals \<Rightarrow> nat \<times> globals" where
  "acquire_tick t = (\<lambda>(idx, g).
     if acc_rc t \<noteq> 0 then (idx, g)
     else
       let data = acc_data t;
           axr = live_raw (d0 data) (d1 data);
           ayr = live_raw (d2 data) (d3 data);
           azr = live_raw (d4 data) (d5 data)
       in
         if gyr_rc t \<noteq> 0 then (idx, g)
         else
           let data = gyr_data t;
               gxr = live_raw (d0 data) (d1 data);
               gyr = live_raw (d2 data) (d3 data);
               gzr = live_raw (d4 data) (d5 data);
               g = g\<lparr>ax := (ax g)[idx := real_of_int axr * ACC_LSB - baseline_acc g ! 0]\<rparr>;
               g = g\<lparr>ay := (ay g)[idx := real_of_int ayr * ACC_LSB - baseline_acc g ! 1]\<rparr>;
               g = g\<lparr>az := (az g)[idx := real_of_int azr * ACC_LSB - baseline_acc g ! 2]\<rparr>;
               g = g\<lparr>gx := (gx g)[idx := real_of_int gxr * GYR_LSB - baseline_gyr g ! 0]\<rparr>;
               g = g\<lparr>gy := (gy g)[idx := real_of_int gyr * GYR_LSB - baseline_gyr g ! 1]\<rparr>;
               g = g\<lparr>gz := (gz g)[idx := real_of_int gzr * GYR_LSB - baseline_gyr g ! 2]\<rparr>
           in (idx + 1, g))"

fun acquire_window :: "tick list \<Rightarrow> nat \<times> globals \<Rightarrow> (globals \<times> tick list) option" where
  "acquire_window [] (idx, g) = (if idx < N then None else Some (g, []))"
| "acquire_window (t # ts) (idx, g) =
     (if idx < N then acquire_window ts (acquire_tick t (idx, g)) else Some (g, t # ts))"

definition zero_pad_at :: "nat \<Rightarrow> globals \<Rightarrow> globals" where
  "zero_pad_at i g =
     g\<lparr>ax := (ax g)[i := 0], ay := (ay g)[i := 0], az := (az g)[i := 0],
       gx := (gx g)[i := 0], gy := (gy g)[i := 0], gz := (gz g)[i := 0]\<rparr>"

definition zero_pad :: "globals \<Rightarrow> globals" where
  "zero_pad g = fold zero_pad_at [N..<FFTN] g"

subsection \<open>Frequency bins (lines 136-138)\<close>

text \<open>\<^verbatim>\<open>roundf\<close>: to the nearest integer, halfway cases away from zero.\<close>

definition roundf :: "real \<Rightarrow> int" where
  "roundf x = (if 0 \<le> x then \<lfloor>x + 1 / 2\<rfloor> else \<lceil>x - 1 / 2\<rceil>)"

definition i3 :: int where "i3 = roundf (3.0 * real FFTN / real Fs)"
definition i5 :: int where "i5 = roundf (5.0 * real FFTN / real Fs)"
definition i7 :: int where "i7 = roundf (7.0 * real FFTN / real Fs)"

subsection \<open>Magnitude spectrum\<close>

text \<open>
  Modelled from the spec: \<^verbatim>\<open>arm_rfft_fast_f32\<close> and \<^verbatim>\<open>arm_cmplx_mag_f32\<close> belong to the
  CMSIS-DSP library and are not among the source files. Section 4.4 of the specification
  describes them as a forward real-to-complex transform of the buffer of length
  \<^verbatim>\<open>FFTN\<close> followed by the magnitude per positive-frequency bin; \<open>rfft_mag\<close> is that
  magnitude for the \<^verbatim>\<open>FFTN / 2\<close> entries of \<^verbatim>\<open>mag\<close>. (The library stores the real Nyquist
  term beside the DC term, which concerns \<^verbatim>\<open>mag[0]\<close> only; the analyzer reads no bin
  below 1.)
\<close>

definition dft_re :: "real list \<Rightarrow> nat \<Rightarrow> real" where
  "dft_re d k = (\<Sum>n<FFTN. d ! n * cos (2 * pi * real k * real n / real FFTN))"

definition dft_im :: "real list \<Rightarrow> nat \<Rightarrow> real" where
  "dft_im d k = - (\<Sum>n<FFTN. d ! n * sin (2 * pi * real k * real n / real FFTN))"

definition rfft_mag :: "real list \<Rightarrow> real list" where
  "rfft_mag d = map (\<lambda>k. sqrt ((dft_re d k)\<^sup>2 + (dft_im d k)\<^sup>2)) [0..<FFTN div 2]"

subsection \<open>Spectral summary of one channel (lines 237-252)\<close>

text \<open>
  A read \<^verbatim>\<open>mag[k]\<close> with an \<^verbatim>\<open>int\<close> index: \<open>None\<close> outside the array, where the C++ program
  has no defined behaviour.
\<close>

definition mag_at :: "real list \<Rightarrow> int \<Rightarrow> real option" where
  "mag_at mag k = (if 0 \<le> k \<and> k < int (length mag) then Some (mag ! nat k) else None)"

text \<open>\<^verbatim>\<open>for (int k = lo; k < hi; k++) rms += mag[k] * mag[k];\<close>\<close>

function rms_loop :: "real list \<Rightarrow> int \<Rightarrow> int \<Rightarrow> real \<Rightarrow> real option" where
  "rms_loop mag k hi rms =
     (if k < hi then
        (case mag_at mag k of
           None \<Rightarrow> None
         | Some m \<Rightarrow> rms_loop mag (k + 1) hi (rms + m * m))
      else Some rms)"
  by pat_completeness auto
termination
  by (relation "measure (\<lambda>(mag, k, hi, rms). nat (hi - k))") auto

text \<open>\<^verbatim>\<open>for (int k = lo; k <= hi; k++) if (mag[k] > p) { p = mag[k]; kp = k; }\<close>\<close>

function peak_loop :: "real list \<Rightarrow> int \<Rightarrow> int \<Rightarrow> real \<times> int \<Rightarrow> (real \<times> int) option" where
  "peak_loop mag k hi (p, kp) =
     (if k \<le> hi then
        (case mag_at mag k of
           None \<Rightarrow> None
         | Some m \<Rightarrow> peak_loop mag (k + 1) hi (if m > p then (m, k) else (p, kp)))
      else Some (p, kp))"
  by pat_completeness auto
termination
  by (relation "measure (\<lambda>(mag, k, hi, pk). nat (hi + 1 - k))") auto

record spectral =
  rms :: real
  p35 :: real
  k35 :: int
  p57 :: real
  k57 :: int

text \<open>The bin indices are captured by the closure; here they are arguments.\<close>

definition spectral_summary :: "int \<Rightarrow> int \<Rightarrow> int \<Rightarrow> real list \<Rightarrow> spectral option" where
  "spectral_summary b3 b5 b7 mag =
     (case rms_loop mag 1 (b7 + 3) 0 of
        None \<Rightarrow> None
      | Some s \<Rightarrow>
          (case peak_loop mag b3 b5 (0, b3) of
             None \<Rightarrow> None
           | Some (p35', k35') \<Rightarrow>
               (case peak_loop mag b5 b7 (0, b5) of
                  None \<Rightarrow> None
                | Some (p57', k57') \<Rightarrow>
                    Some \<lparr> rms = sqrt (s / real_of_int (b7 + 2)),
                           p35 = p35', k35 = k35', p57 = p57', k57 = k57' \<rparr>)))"

subsection \<open>Threshold logic of one channel (lines 266-273)\<close>

text \<open>
  \<^verbatim>\<open>p / rms > PEAK_TO_RMS\<close> in IEEE arithmetic. With \<^verbatim>\<open>rms == 0\<close> the quotient is
  \<^verbatim>\<open>+inf\<close> for a positive peak, which exceeds every finite threshold, and NaN for a zero
  peak, for which every comparison is false; no trap is raised. HOL's \<open>x / 0 = 0\<close> would
  say otherwise, so the case is written out.
\<close>

definition ratio_gt :: "real \<Rightarrow> real \<Rightarrow> real \<Rightarrow> bool" where
  "ratio_gt p r th = (if r = 0 then 0 < p else p / r > th)"

definition tremor_test :: "real \<Rightarrow> spectral \<Rightarrow> bool" where
  "tremor_test tth sp =
     (p35 sp \<ge> tth \<and> ratio_gt (p35 sp) (rms sp) PEAK_TO_RMS \<and> rms sp > tth * 0.5)"

definition dyskinesia_test :: "real \<Rightarrow> spectral \<Rightarrow> bool" where
  "dyskinesia_test dth sp =
     (p57 sp \<ge> dth \<and> ratio_gt (p57 sp) (rms sp) PEAK_TO_RMS \<and> rms sp > dth * 0.5)"

text \<open>The four window-local variables the closure updates by reference.\<close>

record detect =
  trem :: bool
  dysk :: bool
  levelT :: real
  levelD :: real

definition detect_init :: detect where
  "detect_init = \<lparr> trem = False, dysk = False, levelT = 0, levelD = 0 \<rparr>"

definition threshold_logic :: "real \<Rightarrow> real \<Rightarrow> real \<Rightarrow> spectral \<Rightarrow> detect \<Rightarrow> detect" where
  "threshold_logic tth dth scale sp dt =
     (let dt = (if tremor_test tth sp
                then dt\<lparr>trem := True, levelT := max (levelT dt) (p35 sp / scale)\<rparr> else dt)
      in if dyskinesia_test dth sp
         then dt\<lparr>dysk := True, levelD := max (levelD dt) (p57 sp / scale)\<rparr> else dt)"

text \<open>The closure \<^verbatim>\<open>analyze\<close> (lines 231-274), without its logging.\<close>

definition analyze ::
  "real list \<Rightarrow> real \<Rightarrow> real \<Rightarrow> real \<Rightarrow> detect \<Rightarrow> detect option" where
  "analyze d tth dth scale dt =
     (case spectral_summary i3 i5 i7 (rfft_mag d) of
        None \<Rightarrow> None
      | Some sp \<Rightarrow> Some (threshold_logic tth dth scale sp dt))"

text \<open>Lines 276-284: the six calls in their order, then the clamp of both levels.\<close>

definition clamp_levels :: "detect \<Rightarrow> detect" where
  "clamp_levels dt = dt\<lparr>levelT := min (levelT dt) 1.0, levelD := min (levelD dt) 1.0\<rparr>"

definition analyze_window :: "globals \<Rightarrow> detect option" where
  "analyze_window g =
     Option.bind (analyze (ax g) ACC_T_TH ACC_D_TH 0.5 detect_init) (\<lambda>dt.
     Option.bind (analyze (ay g) ACC_T_TH ACC_D_TH 0.5 dt) (\<lambda>dt.
     Option.bind (analyze (az g) ACC_T_TH ACC_D_TH 0.5 dt) (\<lambda>dt.
     Option.bind (analyze (gx g) GYR_T_TH GYR_D_TH 100 dt) (\<lambda>dt.
     Option.bind (analyze (gy g) GYR_T_TH GYR_D_TH 100 dt) (\<lambda>dt.
     Option.bind (analyze (gz g) GYR_T_TH GYR_D_TH 100 dt) (\<lambda>dt.
     Some (clamp_levels dt)))))))"

subsection \<open>Stability filter and LED feedback (lines 292-337)\<close>

text \<open>The conditions of the \<^verbatim>\<open>if\<close> / \<^verbatim>\<open>else if\<close> chain at lines 295 and 301.\<close>

definition dyskinesia_wins :: "detect \<Rightarrow> bool" where
  "dyskinesia_wins dt = (dysk dt \<and> (\<not> trem dt \<or> levelD dt \<ge> levelT dt))"

definition tremor_wins :: "detect \<Rightarrow> bool" where
  "tremor_wins dt = (\<not> dyskinesia_wins dt \<and> trem dt)"

record shown =
  show_tremor :: bool
  show_dyskinesia :: bool

text \<open>
  The number of windows required is the constant \<^verbatim>\<open>STABLE_WINDOWS\<close> in the source; it is
  an argument here, so that the filter can be stated for every value of it. The
  comparisons \<^verbatim>\<open>stable_dyskinesia >= STABLE_WINDOWS\<close> and \<^verbatim>\<open>stable_tremor >= STABLE_WINDOWS\<close>
  are comparisons of signed values.
\<close>

definition stability :: "32 word \<Rightarrow> detect \<Rightarrow> globals \<Rightarrow> shown \<times> globals" where
  "stability stable_windows dt g =
     (let sh = \<lparr> show_tremor = False, show_dyskinesia = False \<rparr> in
      if dyskinesia_wins dt then
        let g = g\<lparr>stable_dyskinesia := stable_dyskinesia g + 1\<rparr>;
            g = g\<lparr>stable_tremor := 0\<rparr>
        in (if sint (stable_dyskinesia g) \<ge> sint stable_windows
            then sh\<lparr>show_dyskinesia := True\<rparr> else sh, g)
      else if trem dt then
        let g = g\<lparr>stable_tremor := stable_tremor g + 1\<rparr>;
            g = g\<lparr>stable_dyskinesia := 0\<rparr>
        in (if sint (stable_tremor g) \<ge> sint stable_windows
            then sh\<lparr>show_tremor := True\<rparr> else sh, g)
      else
        (sh, g\<lparr>stable_tremor := 0, stable_dyskinesia := 0\<rparr>))"

text \<open>Lines 312-337: all LEDs off, then at most one PWM output written again.\<close>

definition led_feedback :: "shown \<Rightarrow> detect \<Rightarrow> globals \<Rightarrow> globals" where
  "led_feedback sh dt g =
     (let g = g\<lparr>led_tremor := 0\<rparr>;
          g = g\<lparr>led_dyskinesia := 0\<rparr>;
          g = g\<lparr>led_status := False\<rparr>;
          g = g\<lparr>led_power := False\<rparr>;
          g = (if show_dyskinesia sh then
                 g\<lparr>led_dyskinesia_period_ms := 200, led_dyskinesia := levelD dt\<rparr>
               else if show_tremor sh then
                 g\<lparr>led_tremor_period_ms := 500, led_tremor := levelT dt\<rparr>
               else g);
          g = (if show_tremor sh \<or> show_dyskinesia sh
               then g\<lparr>led_status := True\<rparr> else g\<lparr>led_status := False\<rparr>)
      in g\<lparr>led_power := False\<rparr>)"

text \<open>The part of the main loop after the analysis of a window.\<close>

definition decide :: "32 word \<Rightarrow> detect \<Rightarrow> globals \<Rightarrow> shown \<times> globals" where
  "decide stable_windows dt g =
     (let (sh, g) = stability stable_windows dt g in (sh, led_feedback sh dt g))"

text \<open>One round of \<^verbatim>\<open>while (true)\<close>: acquisition, zero padding, analysis, decision.\<close>

definition window_round :: "tick list \<Rightarrow> globals \<Rightarrow> (shown \<times> detect \<times> globals \<times> tick list) option" where
  "window_round ts g =
     (case acquire_window ts (0, g) of
        None \<Rightarrow> None
      | Some (g, ts') \<Rightarrow>
          (let g = zero_pad g in
           case analyze_window g of
             None \<Rightarrow> None
           | Some dt \<Rightarrow>
               (let (sh, g) = decide STABLE_WINDOWS dt g in Some (sh, dt, g, ts'))))"

text \<open>
  The filter over a run of windows: the decisions of the windows in order, each with the
  outputs of \<open>decide\<close>, starting from given counters.
\<close>

fun run_windows :: "32 word \<Rightarrow> detect list \<Rightarrow> globals \<Rightarrow> shown list \<times> globals" where
  "run_windows sw [] g = ([], g)"
| "run_windows sw (dt # dts) g =
     (let (sh, g') = decide sw dt g; (shs, g'') = run_windows sw dts g' in (sh # shs, g''))"

subsection \<open>Notions used to state the properties\<close>

text \<open>
  The physical-unit sample of axis \<open>j\<close> (0, 1, 2 for x, y, z) that the calibration loop
  adds to its running sum on a tick, and the one the acquisition loop scales on the same
  bytes.
\<close>

definition axis_bytes :: "nat \<Rightarrow> data6 \<Rightarrow> 8 word \<times> 8 word" where
  "axis_bytes j data =
     (if j = 0 then (d0 data, d1 data) else if j = 1 then (d2 data, d3 data)
      else (d4 data, d5 data))"

definition cal_acc_sample :: "nat \<Rightarrow> tick \<Rightarrow> real" where
  "cal_acc_sample j t =
     (case axis_bytes j (acc_data t) of (lo, hi) \<Rightarrow> real_of_int (cal_raw lo hi) * ACC_LSB)"

definition cal_gyr_sample :: "nat \<Rightarrow> tick \<Rightarrow> real" where
  "cal_gyr_sample j t =
     (case axis_bytes j (gyr_data t) of (lo, hi) \<Rightarrow> real_of_int (cal_raw lo hi) * GYR_LSB)"

definition live_acc_sample :: "nat \<Rightarrow> tick \<Rightarrow> real" where
  "live_acc_sample j t =
     (case axis_bytes j (acc_data t) of (lo, hi) \<Rightarrow> real_of_int (live_raw lo hi) * ACC_LSB)"

definition live_gyr_sample :: "nat \<Rightarrow> tick \<Rightarrow> real" where
  "live_gyr_sample j t =
     (case axis_bytes j (gyr_data t) of (lo, hi) \<Rightarrow> real_of_int (live_raw lo hi) * GYR_LSB)"

definition reads_ok :: "tick \<Rightarrow> bool" where
  "reads_ok t = (acc_rc t = 0 \<and> gyr_rc t = 0)"

text \<open>
  The specification's band peak: \<open>p\<close> is the largest magnitude over the bins \<open>lo\<close> to
  \<open>hi\<close>, and \<open>kp\<close> is the first bin, in ascending order, that holds it.
\<close>

definition is_first_max :: "real list \<Rightarrow> int \<Rightarrow> int \<Rightarrow> real \<Rightarrow> int \<Rightarrow> bool" where
  "is_first_max mag lo hi p kp \<longleftrightarrow>
     lo \<le> kp \<and> kp \<le> hi \<and> mag ! nat kp = p \<and>
     (\<forall>j\<in>{lo..hi}. mag ! nat j \<le> p) \<and> (\<forall>j\<in>{lo..<kp}. mag ! nat j < p)"

text \<open>
  The arguments of the six calls at lines 276-281 by channel number (AX, AY, AZ, GX, GY,
  GZ are 0 to 5), and the flags and levels of a window whose six spectral summaries are
  given: the threshold logic of each channel in the order of the calls, then the clamp.
\<close>

definition channel_tth :: "nat \<Rightarrow> real" where
  "channel_tth c = (if c < 3 then ACC_T_TH else GYR_T_TH)"

definition channel_dth :: "nat \<Rightarrow> real" where
  "channel_dth c = (if c < 3 then ACC_D_TH else GYR_D_TH)"

definition channel_scale :: "nat \<Rightarrow> real" where
  "channel_scale c = (if c < 3 then 0.5 else 100)"

definition detect_of_spectra :: "spectral list \<Rightarrow> detect" where
  "detect_of_spectra sps =
     clamp_levels
       (fold (\<lambda>c. threshold_logic (channel_tth c) (channel_dth c) (channel_scale c) (sps ! c))
          [0, 1, 2, 3, 4, 5] detect_init)"

definition quiet :: "nat \<Rightarrow> spectral \<Rightarrow> bool" where
  "quiet c sp = (\<not> tremor_test (channel_tth c) sp \<and> \<not> dyskinesia_test (channel_dth c) sp)"

definition channel_buffers :: "globals \<Rightarrow> real list list" where
  "channel_buffers g = [ax g, ay g, az g, gx g, gy g, gz g]"

declare rms_loop.simps [simp del] peak_loop.simps [simp del] calib_for.simps [simp del]

section \<open>Properties\<close>

subsection \<open>Frequency bins\<close>

lemma bins: "i3 = 7 \<and> i5 = 12 \<and> i7 = 17"
  by (simp add: i3_def i5_def i7_def roundf_def FFTN_def Fs_def)

subsection \<open>Increment of a signed counter\<close>

lemma sint_inc:
  fixes c :: "32 word"
  assumes "sint c < 2147483647"
  shows "sint (c + 1) = sint c + 1"
proof -
  have lo: "- (2 ^ 31) \<le> sint c"
    using sint_ge [of c] by simp
  have "sint (c + 1) = signed_take_bit 31 (sint c + 1)"
    by (simp add: sint_word_ariths)
  also have "\<dots> = sint c + 1"
    using lo assms by (intro signed_take_bit_int_eq_self) simp_all
  finally show ?thesis .
qed

subsection \<open>The two readings of a byte pair\<close>

lemma assemble_add: "assemble lo hi = ucast lo + push_bit 8 (ucast hi)"
  unfolding assemble_def
  by (rule disjunctive_add [symmetric]) (auto simp: bit_simps dest: bit_imp_le_length)

lemma uint_assemble: "uint (assemble lo hi) = uint lo + 256 * uint hi"
proof -
  have lt: "uint lo < 256" "uint hi < 256" "0 \<le> uint lo" "0 \<le> uint hi"
    using uint_bounded [of lo] uint_bounded [of hi] by simp_all
  have a: "uint (ucast lo :: 32 word) = uint lo"
    by (simp add: uint_up_ucast is_up)
  have "uint (ucast hi :: 32 word) = uint hi"
    by (simp add: uint_up_ucast is_up)
  then have "uint (push_bit 8 (ucast hi :: 32 word)) = take_bit 32 (256 * uint hi)"
    by (simp only: unsigned_push_bit_eq) (simp add: push_bit_eq_mult mult.commute)
  also have "\<dots> = 256 * uint hi"
    using lt by (intro take_bit_int_eq_self) simp_all
  finally have b: "uint (push_bit 8 (ucast hi :: 32 word)) = 256 * uint hi" .
  have "uint (ucast lo :: 32 word) + uint (push_bit 8 (ucast hi :: 32 word)) < 2 ^ LENGTH(32)"
    using lt by (simp add: a b)
  then show ?thesis
    unfolding assemble_add by (simp add: uint_add_lem [THEN iffD1] a b)
qed

lemma signed_take_bit_nonneg:
  fixes v :: int
  assumes "0 \<le> v" "v < 2 ^ n"
  shows "signed_take_bit n v = v"
proof (rule signed_take_bit_int_eq_self)
  have "- (2 ^ n) \<le> (0::int)" by simp
  with assms(1) show "- (2 ^ n) \<le> v" by linarith
  show "v < 2 ^ n" by fact
qed

lemma signed_take_bit_16_high:
  fixes v :: int
  assumes "32768 \<le> v" "v < 65536"
  shows "signed_take_bit 15 v = v - 65536"
proof -
  have "signed_take_bit 15 v = take_bit 16 (v + 32768) - 32768"
    by (simp add: signed_take_bit_eq_take_bit_shift)
  also have "take_bit 16 (v + 32768) = (v - 32768 + 65536) mod 65536"
    by (simp add: take_bit_eq_mod add.commute)
  also have "\<dots> = (v - 32768) mod 65536"
    by (rule mod_add_self2)
  also have "\<dots> = v - 32768"
    using assms by (intro mod_pos_pos_trivial) simp_all
  finally show ?thesis by simp
qed

lemma cal_raw_uint: "cal_raw lo hi = uint lo + 256 * uint hi"
proof -
  have lt: "uint lo < 256" "uint hi < 256" "0 \<le> uint lo" "0 \<le> uint hi"
    using uint_bounded [of lo] uint_bounded [of hi] by simp_all
  from lt have v: "0 \<le> uint lo + 256 * uint hi" "uint lo + 256 * uint hi < 65536"
    by linarith+
  have "cal_raw lo hi = signed_take_bit 31 (uint lo + 256 * uint hi)"
    by (simp add: cal_raw_def sint_uint uint_assemble)
  also have "\<dots> = uint lo + 256 * uint hi"
    using v by (intro signed_take_bit_nonneg) simp_all
  finally show ?thesis .
qed

lemma live_raw_uint:
  "live_raw lo hi = (if hi < 128 then uint lo + 256 * uint hi else uint lo + 256 * uint hi - 65536)"
proof -
  have lt: "uint lo < 256" "uint hi < 256" "0 \<le> uint lo" "0 \<le> uint hi"
    using uint_bounded [of lo] uint_bounded [of hi] by simp_all
  have hi: "hi < 128 \<longleftrightarrow> uint hi < 128"
    by (simp add: word_less_def)
  have s: "live_raw lo hi = signed_take_bit 15 (uint lo + 256 * uint hi)"
    by (simp add: live_raw_def signed_ucast_eq uint_assemble)
  show ?thesis
  proof (cases "hi < 128")
    case True
    with hi lt have v: "0 \<le> uint lo + 256 * uint hi" "uint lo + 256 * uint hi < 32768"
      by linarith+
    then have "signed_take_bit 15 (uint lo + 256 * uint hi) = uint lo + 256 * uint hi"
      by (intro signed_take_bit_nonneg) simp_all
    with True s show ?thesis by simp
  next
    case False
    from False hi lt have "32768 \<le> uint lo + 256 * uint hi" "uint lo + 256 * uint hi < 65536"
      by linarith+
    then have "signed_take_bit 15 (uint lo + 256 * uint hi) = uint lo + 256 * uint hi - 65536"
      by (rule signed_take_bit_16_high)
    then show ?thesis using False s by simp
  qed
qed

lemma cal_raw_live_raw:
  "cal_raw lo hi = live_raw lo hi + (if hi < 128 then 0 else 65536)"
  by (simp add: cal_raw_uint live_raw_uint)

lemma cal_sample_live_sample:
  "cal_acc_sample j t =
     live_acc_sample j t + (if snd (axis_bytes j (acc_data t)) < 128 then 0 else 65536 * ACC_LSB)"
  "cal_gyr_sample j t =
     live_gyr_sample j t + (if snd (axis_bytes j (gyr_data t)) < 128 then 0 else 65536 * GYR_LSB)"
  by (simp_all add: cal_acc_sample_def live_acc_sample_def cal_gyr_sample_def live_gyr_sample_def
        cal_raw_live_raw algebra_simps split: prod.splits)

subsection \<open>The two loops of the spectral summary\<close>

lemma mag_at_in_range: "0 \<le> k \<Longrightarrow> k < int (length mag) \<Longrightarrow> mag_at mag k = Some (mag ! nat k)"
  by (simp add: mag_at_def)

lemma rms_loop_sum:
  "0 \<le> k \<Longrightarrow> hi \<le> int (length mag) \<Longrightarrow>
   rms_loop mag k hi acc = Some (acc + (\<Sum>j = nat k..<nat hi. (mag ! j)\<^sup>2))"
proof (induction mag k hi acc rule: rms_loop.induct)
  case (1 mag k hi acc)
  show ?case
  proof (cases "k < hi")
    case True
    with "1.prems" have at: "mag_at mag k = Some (mag ! nat k)"
      by (simp add: mag_at_in_range)
    from True "1.prems" have lt: "nat k < nat hi" and suc: "nat (k + 1) = Suc (nat k)"
      by simp_all
    have "rms_loop mag (k + 1) hi (acc + mag ! nat k * mag ! nat k)
          = Some (acc + mag ! nat k * mag ! nat k + (\<Sum>j = nat (k + 1)..<nat hi. (mag ! j)\<^sup>2))"
      using "1.IH" [OF True at] "1.prems" by simp
    moreover have "(\<Sum>j = nat k..<nat hi. (mag ! j)\<^sup>2)
          = (mag ! nat k)\<^sup>2 + (\<Sum>j = Suc (nat k)..<nat hi. (mag ! j)\<^sup>2)"
      using lt by (simp add: sum.atLeast_Suc_lessThan)
    ultimately show ?thesis
      using True at suc by (subst rms_loop.simps) (simp add: power2_eq_square)
  next
    case False
    then have "nat hi \<le> nat k" by simp
    with False show ?thesis by (subst rms_loop.simps) simp
  qed
qed

lemma peak_loop_inv:
  "0 \<le> k \<Longrightarrow> hi < int (length mag) \<Longrightarrow>
   \<exists>p' kp'. peak_loop mag k hi (p, kp) = Some (p', kp') \<and> p \<le> p' \<and>
     (\<forall>j\<in>{k..hi}. mag ! nat j \<le> p') \<and>
     ((p', kp') = (p, kp) \<or>
      (k \<le> kp' \<and> kp' \<le> hi \<and> mag ! nat kp' = p' \<and> p < p' \<and> (\<forall>j\<in>{k..<kp'}. mag ! nat j < p')))"
proof (induction mag k hi "(p, kp)" arbitrary: p kp rule: peak_loop.induct)
  case (1 mag k hi p kp)
  show ?case
  proof (cases "k \<le> hi")
    case False
    then show ?thesis by (subst peak_loop.simps) simp
  next
    case True
    with "1.prems" have at: "mag_at mag k = Some (mag ! nat k)"
      by (simp add: mag_at_in_range)
    let ?m = "mag ! nat k"
    obtain q kq where acc_eq: "(if p < ?m then (?m, k) else (p, kp)) = (q, kq)"
      by fastforce
    have unf: "peak_loop mag k hi (p, kp) = peak_loop mag (k + 1) hi (q, kq)"
      using True at acc_eq by (subst peak_loop.simps) simp
    have k1: "0 \<le> k + 1" using "1.prems"(1) by simp
    have "\<exists>p' kp'. peak_loop mag (k + 1) hi (q, kq) = Some (p', kp') \<and> q \<le> p' \<and>
       (\<forall>j\<in>{k + 1..hi}. mag ! nat j \<le> p') \<and>
       ((p', kp') = (q, kq) \<or>
        (k + 1 \<le> kp' \<and> kp' \<le> hi \<and> mag ! nat kp' = p' \<and> q < p' \<and> (\<forall>j\<in>{k + 1..<kp'}. mag ! nat j < p')))"
      by (rule "1.hyps" [OF True at acc_eq k1 "1.prems"(2)])
    then obtain p' kp' where
      res: "peak_loop mag (k + 1) hi (q, kq) = Some (p', kp')" and
      le: "q \<le> p'" and
      all: "\<forall>j\<in>{k + 1..hi}. mag ! nat j \<le> p'" and
      alt: "(p', kp') = (q, kq) \<or>
        (k + 1 \<le> kp' \<and> kp' \<le> hi \<and> mag ! nat kp' = p' \<and> q < p' \<and> (\<forall>j\<in>{k + 1..<kp'}. mag ! nat j < p'))"
      by blast
    have q_bounds: "p \<le> q" "?m \<le> q" and q_cases: "(q, kq) = (p, kp) \<or> (q = ?m \<and> kq = k \<and> p < ?m)"
      using acc_eq by (auto split: if_splits)
    have split_all: "\<And>P. (\<forall>j\<in>{k..hi}. P j) \<longleftrightarrow> P k \<and> (\<forall>j\<in>{k + 1..hi}. P j)"
      using True by (metis atLeastAtMost_iff add1_zle_eq order_le_less order_refl)
    have a1: "\<forall>j\<in>{k..hi}. mag ! nat j \<le> p'"
      using all le q_bounds(2) by (simp add: split_all)
    have a2: "(p', kp') = (p, kp) \<or>
      (k \<le> kp' \<and> kp' \<le> hi \<and> mag ! nat kp' = p' \<and> p < p' \<and> (\<forall>j\<in>{k..<kp'}. mag ! nat j < p'))"
    proof -
      { assume far: "k + 1 \<le> kp'" "kp' \<le> hi" "mag ! nat kp' = p'" "q < p'"
          "\<forall>j\<in>{k + 1..<kp'}. mag ! nat j < p'"
        have "\<forall>j\<in>{k..<kp'}. mag ! nat j < p'"
        proof
          fix j assume "j \<in> {k..<kp'}"
          then have "j = k \<or> j \<in> {k + 1..<kp'}" by auto
          then show "mag ! nat j < p'"
            using far(4,5) q_bounds(2) by auto
        qed
        with far q_bounds(1) have ?thesis by auto }
      moreover
      { assume same: "(p', kp') = (q, kq)" and new: "q = ?m" "kq = k" "p < ?m"
        with True have ?thesis by auto }
      ultimately show ?thesis using alt q_cases by auto
    qed
    from res le q_bounds(1) a1 a2 show ?thesis
      unfolding unf by auto
  qed
qed

lemma peak_loop_first_max:
  assumes "0 \<le> lo" "lo \<le> hi" "hi < int (length mag)" "\<forall>j\<in>{lo..hi}. 0 \<le> mag ! nat j"
  shows "\<exists>p kp. peak_loop mag lo hi (0, lo) = Some (p, kp) \<and> is_first_max mag lo hi p kp"
proof -
  from peak_loop_inv [OF assms(1,3), of 0 lo] obtain p kp where
    res: "peak_loop mag lo hi (0, lo) = Some (p, kp)" and
    all: "\<forall>j\<in>{lo..hi}. mag ! nat j \<le> p" and
    alt: "(p, kp) = (0, lo) \<or>
      (lo \<le> kp \<and> kp \<le> hi \<and> mag ! nat kp = p \<and> 0 < p \<and> (\<forall>j\<in>{lo..<kp}. mag ! nat j < p))"
    by blast
  from alt have "is_first_max mag lo hi p kp"
  proof
    assume "(p, kp) = (0, lo)"
    then have p: "p = 0" and kp: "kp = lo" by simp_all
    from all assms(2,4) p have "mag ! nat lo = 0"
      by (metis atLeastAtMost_iff order_antisym order_refl)
    with all assms(2) p kp show ?thesis by (simp add: is_first_max_def)
  next
    assume "lo \<le> kp \<and> kp \<le> hi \<and> mag ! nat kp = p \<and> 0 < p \<and> (\<forall>j\<in>{lo..<kp}. mag ! nat j < p)"
    with all show ?thesis by (simp add: is_first_max_def)
  qed
  with res show ?thesis by blast
qed

lemma is_first_max_Max:
  "is_first_max mag lo hi p kp \<Longrightarrow> p = Max ((\<lambda>j. mag ! nat j) ` {lo..hi})"
  unfolding is_first_max_def
  by (intro Max_eqI [symmetric]) auto

lemma int_sum_nat:
  "0 \<le> lo \<Longrightarrow> (\<Sum>j = nat lo..<nat hi. f j) = (\<Sum>j\<in>{lo..<hi}. f (nat j))"
  by (rule sum.reindex_bij_witness [where i = nat and j = int]) auto

lemma summary_defined:
  assumes "0 \<le> b3" "b3 \<le> b5" "b5 \<le> b7" "b7 + 2 < int (length mag)"
  shows "spectral_summary b3 b5 b7 mag \<noteq> None"
proof -
  have r: "rms_loop mag 1 (b7 + 3) 0 \<noteq> None"
    using rms_loop_sum [where k = 1 and hi = "b7 + 3" and mag = mag and acc = 0] assms(4) by simp
  from assms have b5: "0 \<le> b5" "b5 < int (length mag)" "b7 < int (length mag)" by simp_all
  obtain p kp where a: "peak_loop mag b3 b5 (0, b3) = Some (p, kp)"
    using peak_loop_inv [OF assms(1) b5(2), of 0 b3] by blast
  obtain q kq where b: "peak_loop mag b5 b7 (0, b5) = Some (q, kq)"
    using peak_loop_inv [OF b5(1) b5(3), of 0 b5] by blast
  show ?thesis
    using r a b by (auto simp: spectral_summary_def)
qed

subsection \<open>The magnitude spectrum\<close>

lemma rfft_mag_zero: "rfft_mag (replicate FFTN 0) = replicate (FFTN div 2) 0"
  by (simp add: rfft_mag_def dft_re_def dft_im_def map_replicate_const)

lemma length_rfft_mag: "length (rfft_mag d) = FFTN div 2"
  by (simp add: rfft_mag_def)

lemma rfft_mag_nonneg: "list_all (\<lambda>m. 0 \<le> m) (rfft_mag d)"
  by (simp add: rfft_mag_def list_all_iff)

subsection \<open>Silent channels\<close>

lemma zero_summary: "spectral_summary i3 i5 i7 (replicate (FFTN div 2) 0) = Some \<lparr> rms = 0, p35 = 0, k35 = i3, p57 = 0, k57 = i5 \<rparr>"
  by (simp add: bins FFTN_def spectral_summary_def rms_loop.simps peak_loop.simps mag_at_def)

lemma zero_tests:
  "\<not> tremor_test tth \<lparr> rms = 0, p35 = 0, k35 = a, p57 = 0, k57 = b \<rparr>"
  "\<not> dyskinesia_test dth \<lparr> rms = 0, p35 = 0, k35 = a, p57 = 0, k57 = b \<rparr>"
  by (simp_all add: tremor_test_def dyskinesia_test_def ratio_gt_def)

lemma threshold_logic_quiet:
  "\<not> tremor_test tth sp \<Longrightarrow> \<not> dyskinesia_test dth sp \<Longrightarrow> threshold_logic tth dth scale sp dt = dt"
  by (simp add: threshold_logic_def)

lemma analyze_zero: "analyze (replicate FFTN 0) tth dth scale dt = Some dt"
  by (simp add: analyze_def rfft_mag_zero zero_summary threshold_logic_quiet zero_tests)

lemma summary_rfft:
  "\<exists>sp. spectral_summary i3 i5 i7 (rfft_mag d) = Some sp"
  using summary_defined [of i3 i5 i7 "rfft_mag d"]
  by (auto simp: bins length_rfft_mag FFTN_def)

lemma analyze_Some:
  "spectral_summary i3 i5 i7 (rfft_mag d) = Some sp \<Longrightarrow>
   analyze d tth dth scale dt = Some (threshold_logic tth dth scale sp dt)"
  by (simp add: analyze_def)

lemma analyze_window_spectra:
  assumes "map (\<lambda>d. spectral_summary i3 i5 i7 (rfft_mag d)) (channel_buffers g) = map Some sps"
  shows "analyze_window g = Some (detect_of_spectra sps)"
proof -
  have "length (map Some sps) = 6"
    unfolding assms [symmetric] by (simp add: channel_buffers_def)
  then have "length sps = 6" by simp
  then obtain s0 s1 s2 s3 s4 s5 where sps: "sps = [s0, s1, s2, s3, s4, s5]"
    by (auto simp: length_Suc_conv numeral_eq_Suc)
  with assms show ?thesis
    by (simp add: channel_buffers_def analyze_window_def analyze_Some detect_of_spectra_def
          channel_tth_def channel_dth_def channel_scale_def)
qed

subsection \<open>Flags of a window\<close>

lemma all_less_6: "(\<forall>c<6::nat. P c) \<longleftrightarrow> P 0 \<and> P 1 \<and> P 2 \<and> P 3 \<and> P 4 \<and> P 5"
proof -
  have "\<And>c::nat. c < 6 \<longleftrightarrow> c = 0 \<or> c = 1 \<or> c = 2 \<or> c = 3 \<or> c = 4 \<or> c = 5" by arith
  then show ?thesis by auto
qed

lemma ex_less_6: "(\<exists>c<6::nat. P c) \<longleftrightarrow> P 0 \<or> P 1 \<or> P 2 \<or> P 3 \<or> P 4 \<or> P 5"
proof -
  have "\<And>c::nat. c < 6 \<longleftrightarrow> c = 0 \<or> c = 1 \<or> c = 2 \<or> c = 3 \<or> c = 4 \<or> c = 5" by arith
  then show ?thesis by auto
qed

lemma threshold_logic_flags:
  "trem (threshold_logic tth dth scale sp dt) \<longleftrightarrow> trem dt \<or> tremor_test tth sp"
  "dysk (threshold_logic tth dth scale sp dt) \<longleftrightarrow> dysk dt \<or> dyskinesia_test dth sp"
  by (auto simp: threshold_logic_def)

lemma clamp_levels_flags: "trem (clamp_levels dt) = trem dt" "dysk (clamp_levels dt) = dysk dt"
  by (simp_all add: clamp_levels_def)

lemma flags_of_spectra:
  assumes "length sps = 6"
  shows "trem (detect_of_spectra sps) \<longleftrightarrow> (\<exists>c<6. tremor_test (channel_tth c) (sps ! c))"
    and "dysk (detect_of_spectra sps) \<longleftrightarrow> (\<exists>c<6. dyskinesia_test (channel_dth c) (sps ! c))"
proof -
  from assms obtain s0 s1 s2 s3 s4 s5 where sps: "sps = [s0, s1, s2, s3, s4, s5]"
    by (auto simp: length_Suc_conv numeral_eq_Suc)
  show "trem (detect_of_spectra sps) \<longleftrightarrow> (\<exists>c<6. tremor_test (channel_tth c) (sps ! c))"
    unfolding sps ex_less_6
    by (simp add: detect_of_spectra_def threshold_logic_flags clamp_levels_flags detect_init_def)
  show "dysk (detect_of_spectra sps) \<longleftrightarrow> (\<exists>c<6. dyskinesia_test (channel_dth c) (sps ! c))"
    unfolding sps ex_less_6
    by (simp add: detect_of_spectra_def threshold_logic_flags clamp_levels_flags detect_init_def)
qed

subsection \<open>Spectral summary and bin indices\<close>

text \<open>
  Claim C7. For a magnitude spectrum (entries not negative) that holds the bins up to
  \<open>b7 + 2\<close>, and bin indices \<open>0 \<le> b3 \<le> b5 \<le> b7\<close>, the summary is defined; its \<open>rms\<close> is
  the square root of the sum of the squared magnitudes of bins 1 to \<open>b7 + 2\<close> (bin 0 left
  out) divided by \<open>b7 + 2\<close>; \<open>p35\<close> is the maximum over bins \<open>b3\<close> to \<open>b5\<close> and \<open>k35\<close> the
  first bin holding it; \<open>p57\<close> and \<open>k57\<close> likewise over bins \<open>b5\<close> to \<open>b7\<close>.
\<close>

theorem spectral_summary_spec:
  assumes "0 \<le> b3" "b3 \<le> b5" "b5 \<le> b7" "b7 + 2 < int (length mag)"
    and "list_all (\<lambda>m. 0 \<le> m) mag"
  shows "\<exists>sp. spectral_summary b3 b5 b7 mag = Some sp \<and>
     rms sp = sqrt ((\<Sum>j\<in>{1..b7 + 2}. (mag ! nat j)\<^sup>2) / real_of_int (b7 + 2)) \<and>
     p35 sp = Max ((\<lambda>j. mag ! nat j) ` {b3..b5}) \<and> is_first_max mag b3 b5 (p35 sp) (k35 sp) \<and>
     p57 sp = Max ((\<lambda>j. mag ! nat j) ` {b5..b7}) \<and> is_first_max mag b5 b7 (p57 sp) (k57 sp)"
proof -
  have nonneg: "\<And>lo hi. 0 \<le> lo \<Longrightarrow> hi < int (length mag) \<Longrightarrow> \<forall>j\<in>{lo..hi}. 0 \<le> mag ! nat j"
    using assms(5) by (auto simp: list_all_length)
  have "{1..<b7 + 3} = {1..b7 + 2}" by auto
  then have r: "rms_loop mag 1 (b7 + 3) 0 = Some (\<Sum>j\<in>{1..b7 + 2}. (mag ! nat j)\<^sup>2)"
    using rms_loop_sum [where k = 1 and hi = "b7 + 3" and mag = mag and acc = 0] assms(4)
      int_sum_nat [where lo = 1 and hi = "b7 + 3" and f = "\<lambda>j. (mag ! j)\<^sup>2"]
    by simp
  from assms have b5: "0 \<le> b5" "b5 < int (length mag)" "b7 < int (length mag)" by simp_all
  obtain p kp where a: "peak_loop mag b3 b5 (0, b3) = Some (p, kp)" "is_first_max mag b3 b5 p kp"
    using peak_loop_first_max [OF assms(1,2) b5(2) nonneg [OF assms(1) b5(2)]] by blast
  obtain q kq where b: "peak_loop mag b5 b7 (0, b5) = Some (q, kq)" "is_first_max mag b5 b7 q kq"
    using peak_loop_first_max [OF b5(1) assms(3) b5(3) nonneg [OF b5(1) b5(3)]] by blast
  show ?thesis
    using r a b is_first_max_Max [OF a(2)] is_first_max_Max [OF b(2)]
    by (simp add: spectral_summary_def)
qed

text \<open>
  A spectrum with the value 3 in bins 9 and 11 and the value 4 in bin 14: the peak of the
  lower band is reported at bin 9, the first of the two.
\<close>

theorem spectral_summary_spec_witness:
  "spectral_summary i3 i5 i7 ((replicate 128 0)[9 := 3, 11 := 3, 14 := 4])
     = Some \<lparr> rms = sqrt (34 / 19), p35 = 3, k35 = 9, p57 = 4, k57 = 14 \<rparr> \<and>
   is_first_max ((replicate 128 0)[9 := 3, 11 := 3, 14 := 4]) i3 i5 3 9 \<and>
   is_first_max ((replicate 128 0)[9 := 3, 11 := 3, 14 := 4]) i5 i7 4 14"
proof -
  let ?M = "(replicate 128 (0::real))[9 := 3, 11 := 3, 14 := 4]"
  have nn: "list_all (\<lambda>m. 0 \<le> m) ?M"
    by (auto simp: list_all_length nth_list_update)
  have len: "(17::int) + 2 < int (length ?M)" by simp
  from spectral_summary_spec [of 7 12 17 ?M, OF _ _ _ len nn]
  obtain sp where sp: "spectral_summary 7 12 17 ?M = Some sp"
    "is_first_max ?M 7 12 (p35 sp) (k35 sp)" "is_first_max ?M 12 17 (p57 sp) (k57 sp)"
    by auto
  have ev: "spectral_summary 7 12 17 ?M
      = Some \<lparr> rms = sqrt (34 / 19), p35 = 3, k35 = 9, p57 = 4, k57 = 14 \<rparr>"
    by (simp add: spectral_summary_def rms_loop.simps peak_loop.simps mag_at_def)
  from sp(1) ev have "sp = \<lparr> rms = sqrt (34 / 19), p35 = 3, k35 = 9, p57 = 4, k57 = 14 \<rparr>"
    by simp
  with sp(2,3) ev show ?thesis by (simp add: bins)
qed

text \<open>
  Claim C10. The bin indices computed at startup are 7, 12 and 17; the highest bin the
  analyzer reads, \<open>i7 + 2\<close>, and the lowest, 1, lie inside \<^verbatim>\<open>mag[FFTN / 2]\<close>, so on every
  array of that length the summary completes without a read outside the array. (On an
  array of 19 entries the read of bin 19 is outside, and the model reports it.)
\<close>

theorem bins_within_mag:
  "i3 = 7 \<and> i5 = 12 \<and> i7 = 17 \<and> i7 + 2 < int (FFTN div 2) \<and>
   (\<forall>mag. length mag = FFTN div 2 \<longrightarrow> spectral_summary i3 i5 i7 mag \<noteq> None) \<and>
   spectral_summary i3 i5 i7 (replicate 19 0) = None"
proof -
  have "\<forall>mag. length mag = FFTN div 2 \<longrightarrow> spectral_summary i3 i5 i7 mag \<noteq> None"
    using summary_defined [of i3 i5 i7] by (simp add: bins FFTN_def)
  moreover have "spectral_summary i3 i5 i7 (replicate 19 0) = None"
    by (simp add: bins spectral_summary_def rms_loop.simps mag_at_def)
  ultimately show ?thesis by (simp add: bins FFTN_def)
qed

theorem bins_within_mag_witness:
  "length (map real [0..<128]) = FFTN div 2 \<and>
   spectral_summary i3 i5 i7 (map real [0..<128]) \<noteq> None"
proof -
  have len: "length (map real [0..<128]) = FFTN div 2" by (simp add: FFTN_def)
  from bins_within_mag have "spectral_summary i3 i5 i7 (map real [0..<128]) \<noteq> None"
    using len by blast
  with len show ?thesis by simp
qed

subsection \<open>Tests, decision and sampling\<close>

lemma rms_zero_tests_fail:
  "0 < tth \<Longrightarrow> rms sp = 0 \<Longrightarrow> \<not> tremor_test tth sp"
  "0 < dth \<Longrightarrow> rms sp = 0 \<Longrightarrow> \<not> dyskinesia_test dth sp"
  by (simp_all add: tremor_test_def dyskinesia_test_def)

lemma channel_thresholds_pos: "0 < channel_tth c" "0 < channel_dth c"
  by (simp_all add: channel_tth_def channel_dth_def ACC_T_TH_def ACC_D_TH_def GYR_T_TH_def GYR_D_TH_def)

text \<open>
  Claim C8. For a buffer of \<^verbatim>\<open>FFTN\<close> zeros the summary has \<open>rms = 0\<close> and both peaks 0, and
  neither test passes, whatever the thresholds; \<^verbatim>\<open>analyze\<close> leaves the flags and levels as
  they were, a window whose six buffers are zero ends with no flag, and nothing is shown.
  More generally, with the thresholds of any channel a summary with \<open>rms = 0\<close> fails both
  tests: the quotient by zero raises nothing and the comparison \<^verbatim>\<open>rms > th * 0.5\<close> is false.
\<close>

theorem zero_window_silent:
  "spectral_summary i3 i5 i7 (rfft_mag (replicate FFTN 0))
     = Some \<lparr> rms = 0, p35 = 0, k35 = i3, p57 = 0, k57 = i5 \<rparr>
   \<and> \<not> tremor_test tth \<lparr> rms = 0, p35 = 0, k35 = i3, p57 = 0, k57 = i5 \<rparr>
   \<and> \<not> dyskinesia_test dth \<lparr> rms = 0, p35 = 0, k35 = i3, p57 = 0, k57 = i5 \<rparr>
   \<and> analyze (replicate FFTN 0) tth dth scale dt = Some dt
   \<and> analyze_window (g\<lparr>ax := replicate FFTN 0, ay := replicate FFTN 0, az := replicate FFTN 0,
        gx := replicate FFTN 0, gy := replicate FFTN 0, gz := replicate FFTN 0\<rparr>) = Some detect_init
   \<and> fst (decide sw detect_init g) = \<lparr> show_tremor = False, show_dyskinesia = False \<rparr>
   \<and> (\<forall>sp c. rms sp = 0 \<longrightarrow> quiet c sp)"
proof -
  have "\<forall>sp c. rms sp = 0 \<longrightarrow> quiet c sp"
    by (simp add: quiet_def rms_zero_tests_fail channel_thresholds_pos)
  moreover have "fst (decide sw detect_init g) = \<lparr> show_tremor = False, show_dyskinesia = False \<rparr>"
    by (simp add: detect_init_def decide_def stability_def dyskinesia_wins_def Let_def)
  moreover have "analyze_window (g\<lparr>ax := replicate FFTN 0, ay := replicate FFTN 0, az := replicate FFTN 0,
        gx := replicate FFTN 0, gy := replicate FFTN 0, gz := replicate FFTN 0\<rparr>) = Some detect_init"
    by (simp add: analyze_zero analyze_window_def clamp_levels_def detect_init_def)
  ultimately show ?thesis
    by (simp add: rfft_mag_zero zero_summary zero_tests analyze_zero)
qed

text \<open>A summary with \<open>rms = 0\<close> and a peak above the threshold: still no test passes.\<close>

theorem zero_window_silent_witness:
  "rms \<lparr> rms = 0, p35 = 1, k35 = 7, p57 = 1, k57 = 12 \<rparr> = 0 \<and>
   \<not> tremor_test ACC_T_TH \<lparr> rms = 0, p35 = 1, k35 = 7, p57 = 1, k57 = 12 \<rparr> \<and>
   \<not> dyskinesia_test ACC_D_TH \<lparr> rms = 0, p35 = 1, k35 = 7, p57 = 1, k57 = 12 \<rparr>"
proof -
  let ?sp = "\<lparr> rms = 0, p35 = 1, k35 = 7, p57 = 1, k57 = 12 \<rparr>"
  have r: "rms ?sp = 0" by simp
  from zero_window_silent [of ACC_T_TH ACC_D_TH 1 detect_init boot 1]
  have "\<forall>sp c. rms sp = 0 \<longrightarrow> quiet c sp" by blast
  with r have "quiet 0 ?sp" by blast
  then show ?thesis by (simp add: quiet_def channel_tth_def channel_dth_def)
qed

text \<open>
  Claim C9. After the decision step of a window, whatever the flags, levels and previous
  state: not both \<open>show_tremor\<close> and \<open>show_dyskinesia\<close>; one of the two stability counters
  is 0; one of the two indicator LEDs has duty cycle 0.
\<close>

theorem decide_exclusive:
  "(case decide sw dt g of (sh, g') \<Rightarrow>
      \<not> (show_tremor sh \<and> show_dyskinesia sh)
    \<and> (stable_tremor g' = 0 \<or> stable_dyskinesia g' = 0)
    \<and> (led_tremor g' = 0 \<or> led_dyskinesia g' = 0))"
  by (simp add: decide_def stability_def led_feedback_def Let_def split: prod.splits)

text \<open>
  Claim C6. When both flags of a window are set, dyskinesia wins exactly when
  \<open>levelD \<ge> levelT\<close> and tremor exactly when \<open>levelT > levelD\<close>; when one flag only is set,
  that condition wins. The winner is the condition whose counter the filter increments,
  the other counter being set to 0. A flag of a window is set exactly when the test of
  its condition passes on one of the six channels.
\<close>

theorem tie_break:
  "(trem dt \<and> dysk dt \<longrightarrow>
      (dyskinesia_wins dt \<longleftrightarrow> levelD dt \<ge> levelT dt) \<and> (tremor_wins dt \<longleftrightarrow> levelT dt > levelD dt))
   \<and> (dysk dt \<and> \<not> trem dt \<longrightarrow> dyskinesia_wins dt \<and> \<not> tremor_wins dt)
   \<and> (trem dt \<and> \<not> dysk dt \<longrightarrow> tremor_wins dt \<and> \<not> dyskinesia_wins dt)
   \<and> (dyskinesia_wins dt \<longrightarrow>
        snd (stability sw dt g) = g\<lparr>stable_dyskinesia := stable_dyskinesia g + 1, stable_tremor := 0\<rparr>)
   \<and> (tremor_wins dt \<longrightarrow>
        snd (stability sw dt g) = g\<lparr>stable_tremor := stable_tremor g + 1, stable_dyskinesia := 0\<rparr>)
   \<and> (length sps = 6 \<longrightarrow>
        (trem (detect_of_spectra sps) \<longleftrightarrow> (\<exists>c<6. tremor_test (channel_tth c) (sps ! c))) \<and>
        (dysk (detect_of_spectra sps) \<longleftrightarrow> (\<exists>c<6. dyskinesia_test (channel_dth c) (sps ! c))))"
proof -
  have "length sps = 6 \<longrightarrow>
        (trem (detect_of_spectra sps) \<longleftrightarrow> (\<exists>c<6. tremor_test (channel_tth c) (sps ! c))) \<and>
        (dysk (detect_of_spectra sps) \<longleftrightarrow> (\<exists>c<6. dyskinesia_test (channel_dth c) (sps ! c)))"
    using flags_of_spectra [of sps] by blast
  moreover have "(trem dt \<and> dysk dt \<longrightarrow>
      (dyskinesia_wins dt \<longleftrightarrow> levelD dt \<ge> levelT dt) \<and> (tremor_wins dt \<longleftrightarrow> levelT dt > levelD dt))
   \<and> (dysk dt \<and> \<not> trem dt \<longrightarrow> dyskinesia_wins dt \<and> \<not> tremor_wins dt)
   \<and> (trem dt \<and> \<not> dysk dt \<longrightarrow> tremor_wins dt \<and> \<not> dyskinesia_wins dt)
   \<and> (dyskinesia_wins dt \<longrightarrow>
        snd (stability sw dt g) = g\<lparr>stable_dyskinesia := stable_dyskinesia g + 1, stable_tremor := 0\<rparr>)
   \<and> (tremor_wins dt \<longrightarrow>
        snd (stability sw dt g) = g\<lparr>stable_tremor := stable_tremor g + 1, stable_dyskinesia := 0\<rparr>)"
    by (auto simp: dyskinesia_wins_def tremor_wins_def stability_def Let_def)
  ultimately show ?thesis by blast
qed

text \<open>
  Both flags set with equal levels: dyskinesia wins and its counter goes from 0 to 1. Both
  flags set with the higher level on tremor, or one flag only: that condition wins.
\<close>

theorem tie_break_witness:
  "dyskinesia_wins \<lparr> trem = True, dysk = True, levelT = 0.4, levelD = 0.4 \<rparr> \<and>
   \<not> tremor_wins \<lparr> trem = True, dysk = True, levelT = 0.4, levelD = 0.4 \<rparr> \<and>
   stable_dyskinesia (snd (stability STABLE_WINDOWS \<lparr> trem = True, dysk = True, levelT = 0.4, levelD = 0.4 \<rparr> boot)) = 1 \<and>
   stable_tremor (snd (stability STABLE_WINDOWS \<lparr> trem = True, dysk = True, levelT = 0.4, levelD = 0.4 \<rparr> boot)) = 0 \<and>
   tremor_wins \<lparr> trem = True, dysk = True, levelT = 0.5, levelD = 0.4 \<rparr> \<and>
   tremor_wins \<lparr> trem = True, dysk = False, levelT = 0.1, levelD = 0 \<rparr> \<and>
   dyskinesia_wins \<lparr> trem = False, dysk = True, levelT = 0, levelD = 0.1 \<rparr>"
proof -
  let ?dt = "\<lparr> trem = True, dysk = True, levelT = 0.4, levelD = 0.4 \<rparr>"
  let ?t = "\<lparr> trem = True, dysk = True, levelT = 0.5, levelD = 0.4 \<rparr>"
  let ?t1 = "\<lparr> trem = True, dysk = False, levelT = 0.1, levelD = 0 \<rparr>"
  let ?d1 = "\<lparr> trem = False, dysk = True, levelT = 0, levelD = 0.1 \<rparr>"
  have h: "trem ?dt \<and> dysk ?dt" "levelD ?dt \<ge> levelT ?dt" by simp_all
  from tie_break [of ?dt STABLE_WINDOWS boot] h
  have w: "dyskinesia_wins ?dt" "\<not> tremor_wins ?dt" by auto
  with tie_break [of ?dt STABLE_WINDOWS boot]
  have "snd (stability STABLE_WINDOWS ?dt boot)
      = boot\<lparr>stable_dyskinesia := stable_dyskinesia boot + 1, stable_tremor := 0\<rparr>"
    by blast
  then have c: "stable_dyskinesia (snd (stability STABLE_WINDOWS ?dt boot)) = 1"
    "stable_tremor (snd (stability STABLE_WINDOWS ?dt boot)) = 0"
    by (simp_all add: boot_def)
  have "trem ?t \<and> dysk ?t" "levelT ?t > levelD ?t" by simp_all
  with tie_break [of ?t STABLE_WINDOWS boot] have t: "tremor_wins ?t" by blast
  have "trem ?t1 \<and> \<not> dysk ?t1" by simp
  with tie_break [of ?t1 STABLE_WINDOWS boot] have t1: "tremor_wins ?t1" by blast
  have "dysk ?d1 \<and> \<not> trem ?d1" by simp
  with tie_break [of ?d1 STABLE_WINDOWS boot] have d1: "dyskinesia_wins ?d1" by blast
  from w c t t1 d1 show ?thesis by blast
qed

text \<open>
  Claim C3. On every byte pair the value the calibration loop scales is the value the
  acquisition loop scales plus 65536 when the high bit of the upper byte is set, so the
  two phases never agree on such a reading. For the raw bytes \<open>0xFF 0xFF\<close> (the reading
  -1) the calibration loop scales 65535, the acquisition loop -1.
\<close>

theorem conversion_differs:
  "cal_raw lo hi = live_raw lo hi + (if hi < 128 then 0 else 65536)
   \<and> cal_raw 0xFF 0xFF = 65535 \<and> live_raw 0xFF 0xFF = - 1
   \<and> real_of_int (cal_raw 0xFF 0xFF) * ACC_LSB = 3.997635
   \<and> real_of_int (live_raw 0xFF 0xFF) * ACC_LSB = - 0.000061"
proof -
  have "cal_raw 0xFF 0xFF = 65535 \<and> live_raw 0xFF 0xFF = - 1
   \<and> real_of_int (cal_raw 0xFF 0xFF) * ACC_LSB = 3.997635
   \<and> real_of_int (live_raw 0xFF 0xFF) * ACC_LSB = - 0.000061"
    by (simp add: cal_raw_def live_raw_def assemble_def ACC_LSB_def)
  with cal_raw_live_raw [of lo hi] show ?thesis
    by (rule conjI)
qed

text \<open>
  Claim C2. A tick whose accelerometer read succeeds and whose gyroscope read fails: the
  calibration loop keeps \<^verbatim>\<open>idx\<close> and has added the accelerometer reading to its sums; the
  acquisition loop keeps \<^verbatim>\<open>idx\<close> and the whole state.
\<close>

theorem calib_tick_partial_commit:
  "calib_tick \<lparr> acc_rc = 0, acc_data = Data6 1 0 0 0 0 0, gyr_rc = 1, gyr_data = Data6 0 0 0 0 0 0 \<rparr> (0, boot)
     = (0, boot\<lparr>baseline_acc := [0.000061, 0, 0]\<rparr>)
   \<and> acquire_tick \<lparr> acc_rc = 0, acc_data = Data6 1 0 0 0 0 0, gyr_rc = 1, gyr_data = Data6 0 0 0 0 0 0 \<rparr> (0, boot)
     = (0, boot)"
  by (simp add: calib_tick_def acquire_tick_def boot_def add_at_def cal_raw_def assemble_def
        ACC_LSB_def Let_def)

lemma acquire_tick_failed: "\<not> reads_ok t \<Longrightarrow> acquire_tick t (idx, g) = (idx, g)"
  by (auto simp: acquire_tick_def reads_ok_def Let_def)

lemma calib_tick_acc_failed: "acc_rc t \<noteq> 0 \<Longrightarrow> calib_tick t (idx, g) = (idx, g)"
  by (auto simp: calib_tick_def Let_def)

lemma calib_tick_idx: "\<not> reads_ok t \<Longrightarrow> fst (calib_tick t (idx, g)) = idx"
  by (auto simp: calib_tick_def reads_ok_def Let_def)

subsection \<open>Calibration\<close>

lemma calib_tick_ok:
  assumes "reads_ok t" "baseline_acc g = [a0, a1, a2]" "baseline_gyr g = [b0, b1, b2]"
  shows "calib_tick t (idx, g) =
     (idx + 1, g\<lparr>baseline_acc := [a0 + cal_acc_sample 0 t, a1 + cal_acc_sample 1 t, a2 + cal_acc_sample 2 t],
                 baseline_gyr := [b0 + cal_gyr_sample 0 t, b1 + cal_gyr_sample 1 t, b2 + cal_gyr_sample 2 t]\<rparr>)"
  using assms
  by (simp add: calib_tick_def reads_ok_def Let_def add_at_def cal_acc_sample_def
        cal_gyr_sample_def axis_bytes_def)

lemma calib_window_ok:
  assumes "\<forall>t\<in>set ts. reads_ok t" "idx \<le> N" "N - idx \<le> length ts"
    "baseline_acc g = [a0, a1, a2]" "baseline_gyr g = [b0, b1, b2]"
  shows "calib_window ts (idx, g) =
     Some (g\<lparr>baseline_acc := [a0 + (\<Sum>t\<leftarrow>take (N - idx) ts. cal_acc_sample 0 t),
                               a1 + (\<Sum>t\<leftarrow>take (N - idx) ts. cal_acc_sample 1 t),
                               a2 + (\<Sum>t\<leftarrow>take (N - idx) ts. cal_acc_sample 2 t)],
              baseline_gyr := [b0 + (\<Sum>t\<leftarrow>take (N - idx) ts. cal_gyr_sample 0 t),
                               b1 + (\<Sum>t\<leftarrow>take (N - idx) ts. cal_gyr_sample 1 t),
                               b2 + (\<Sum>t\<leftarrow>take (N - idx) ts. cal_gyr_sample 2 t)]\<rparr>,
           drop (N - idx) ts)"
  using assms
proof (induction ts arbitrary: idx g a0 a1 a2 b0 b1 b2)
  case Nil
  then have "idx = N" by simp
  with Nil show ?case by simp
next
  case (Cons t ts)
  show ?case
  proof (cases "idx < N")
    case False
    with Cons.prems have "N - idx = 0" by simp
    with False Cons.prems show ?thesis by simp
  next
    case True
    from Cons.prems have ok: "reads_ok t" and rest: "\<forall>t\<in>set ts. reads_ok t" by simp_all
    let ?g = "g\<lparr>baseline_acc := [a0 + cal_acc_sample 0 t, a1 + cal_acc_sample 1 t, a2 + cal_acc_sample 2 t],
                 baseline_gyr := [b0 + cal_gyr_sample 0 t, b1 + cal_gyr_sample 1 t, b2 + cal_gyr_sample 2 t]\<rparr>"
    have step: "calib_tick t (idx, g) = (idx + 1, ?g)"
      by (rule calib_tick_ok [OF ok Cons.prems(4,5)])
    from True Cons.prems have le: "idx + 1 \<le> N" "N - (idx + 1) \<le> length ts" by simp_all
    from True have suc: "N - idx = Suc (N - (idx + 1))" by simp
    have "calib_window ts (idx + 1, ?g) = Some (?g\<lparr>baseline_acc := [a0 + cal_acc_sample 0 t + (\<Sum>t\<leftarrow>take (N - (idx + 1)) ts. cal_acc_sample 0 t),
                               a1 + cal_acc_sample 1 t + (\<Sum>t\<leftarrow>take (N - (idx + 1)) ts. cal_acc_sample 1 t),
                               a2 + cal_acc_sample 2 t + (\<Sum>t\<leftarrow>take (N - (idx + 1)) ts. cal_acc_sample 2 t)],
              baseline_gyr := [b0 + cal_gyr_sample 0 t + (\<Sum>t\<leftarrow>take (N - (idx + 1)) ts. cal_gyr_sample 0 t),
                               b1 + cal_gyr_sample 1 t + (\<Sum>t\<leftarrow>take (N - (idx + 1)) ts. cal_gyr_sample 1 t),
                               b2 + cal_gyr_sample 2 t + (\<Sum>t\<leftarrow>take (N - (idx + 1)) ts. cal_gyr_sample 2 t)]\<rparr>,
           drop (N - (idx + 1)) ts)"
      by (rule Cons.IH [OF rest le]) simp_all
    then show ?thesis
      using True step by (simp add: suc add.assoc)
  qed
qed

lemma calib_for_ok:
  assumes "\<forall>t\<in>set ts. reads_ok t" "i \<le> CALIBRATION_WINDOWS"
    "length ts = (CALIBRATION_WINDOWS - i) * N"
    "baseline_acc g = [a0, a1, a2]" "baseline_gyr g = [b0, b1, b2]"
  shows "calib_for i ts g =
     Some (g\<lparr>baseline_acc := [a0 + (\<Sum>t\<leftarrow>ts. cal_acc_sample 0 t),
                               a1 + (\<Sum>t\<leftarrow>ts. cal_acc_sample 1 t),
                               a2 + (\<Sum>t\<leftarrow>ts. cal_acc_sample 2 t)],
              baseline_gyr := [b0 + (\<Sum>t\<leftarrow>ts. cal_gyr_sample 0 t),
                               b1 + (\<Sum>t\<leftarrow>ts. cal_gyr_sample 1 t),
                               b2 + (\<Sum>t\<leftarrow>ts. cal_gyr_sample 2 t)]\<rparr>, [])"
  using assms
proof (induction i ts g arbitrary: a0 a1 a2 b0 b1 b2 rule: calib_for.induct)
  case (1 i ts g)
  show ?case
  proof (cases "i < CALIBRATION_WINDOWS")
    case False
    with "1.prems" have "ts = []" by simp
    with False "1.prems" show ?thesis by (subst calib_for.simps) simp
  next
    case True
    then have "(CALIBRATION_WINDOWS - i) * N = N + (CALIBRATION_WINDOWS - (i + 1)) * N"
      by (metis Suc_diff_Suc Suc_eq_plus1 diff_Suc_Suc mult_Suc)
    with "1.prems" have len: "N - 0 \<le> length ts" "length (drop N ts) = (CALIBRATION_WINDOWS - (i + 1)) * N"
      by simp_all
    let ?g = "g\<lparr>baseline_acc := [a0 + (\<Sum>t\<leftarrow>take N ts. cal_acc_sample 0 t),
                               a1 + (\<Sum>t\<leftarrow>take N ts. cal_acc_sample 1 t),
                               a2 + (\<Sum>t\<leftarrow>take N ts. cal_acc_sample 2 t)],
              baseline_gyr := [b0 + (\<Sum>t\<leftarrow>take N ts. cal_gyr_sample 0 t),
                               b1 + (\<Sum>t\<leftarrow>take N ts. cal_gyr_sample 1 t),
                               b2 + (\<Sum>t\<leftarrow>take N ts. cal_gyr_sample 2 t)]\<rparr>"
    have w: "calib_window ts (0, g) = Some (?g, drop N ts)"
      using calib_window_ok [OF "1.prems"(1) _ len(1) "1.prems"(4,5)] by simp
    have rest: "\<forall>t\<in>set (drop N ts). reads_ok t"
      using "1.prems"(1) by (meson in_set_dropD)
    from True have i1: "i + 1 \<le> CALIBRATION_WINDOWS" by simp
    have split: "\<And>f. (\<Sum>t\<leftarrow>ts. f t) = (\<Sum>t\<leftarrow>take N ts. f t) + (\<Sum>t\<leftarrow>drop N ts. (f t :: real))"
      by (metis append_take_drop_id map_append sum_list.append)
    have "calib_for (i + 1) (drop N ts) ?g =
      Some (?g\<lparr>baseline_acc := [a0 + (\<Sum>t\<leftarrow>take N ts. cal_acc_sample 0 t) + (\<Sum>t\<leftarrow>drop N ts. cal_acc_sample 0 t),
                               a1 + (\<Sum>t\<leftarrow>take N ts. cal_acc_sample 1 t) + (\<Sum>t\<leftarrow>drop N ts. cal_acc_sample 1 t),
                               a2 + (\<Sum>t\<leftarrow>take N ts. cal_acc_sample 2 t) + (\<Sum>t\<leftarrow>drop N ts. cal_acc_sample 2 t)],
              baseline_gyr := [b0 + (\<Sum>t\<leftarrow>take N ts. cal_gyr_sample 0 t) + (\<Sum>t\<leftarrow>drop N ts. cal_gyr_sample 0 t),
                               b1 + (\<Sum>t\<leftarrow>take N ts. cal_gyr_sample 1 t) + (\<Sum>t\<leftarrow>drop N ts. cal_gyr_sample 1 t),
                               b2 + (\<Sum>t\<leftarrow>take N ts. cal_gyr_sample 2 t) + (\<Sum>t\<leftarrow>drop N ts. cal_gyr_sample 2 t)]\<rparr>, [])"
      by (rule "1.IH" [OF True w refl rest i1 len(2)]) simp_all
    then show ?thesis
      using True w by (subst calib_for.simps) (simp add: split add.assoc)
  qed
qed

lemma fold_baseline_div:
  assumes "baseline_acc g = [a0, a1, a2]" "baseline_gyr g = [b0, b1, b2]"
  shows "fold baseline_div [0, 1, 2] g =
    g\<lparr>baseline_acc := [a0 / real (CALIBRATION_WINDOWS * N), a1 / real (CALIBRATION_WINDOWS * N), a2 / real (CALIBRATION_WINDOWS * N)],
      baseline_gyr := [b0 / real (CALIBRATION_WINDOWS * N), b1 / real (CALIBRATION_WINDOWS * N), b2 / real (CALIBRATION_WINDOWS * N)]\<rparr>"
  using assms by (simp add: baseline_div_def Let_def)

lemma calibrate_ok:
  assumes "\<forall>t\<in>set ts. reads_ok t" "length ts = CALIBRATION_WINDOWS * N"
    "baseline_acc g = [0, 0, 0]" "baseline_gyr g = [0, 0, 0]"
  shows "calibrate ts g =
     Some (g\<lparr>baseline_acc := [(\<Sum>t\<leftarrow>ts. cal_acc_sample 0 t) / real (CALIBRATION_WINDOWS * N),
                               (\<Sum>t\<leftarrow>ts. cal_acc_sample 1 t) / real (CALIBRATION_WINDOWS * N),
                               (\<Sum>t\<leftarrow>ts. cal_acc_sample 2 t) / real (CALIBRATION_WINDOWS * N)],
              baseline_gyr := [(\<Sum>t\<leftarrow>ts. cal_gyr_sample 0 t) / real (CALIBRATION_WINDOWS * N),
                               (\<Sum>t\<leftarrow>ts. cal_gyr_sample 1 t) / real (CALIBRATION_WINDOWS * N),
                               (\<Sum>t\<leftarrow>ts. cal_gyr_sample 2 t) / real (CALIBRATION_WINDOWS * N)],
              is_calibrated := True\<rparr>, [])"
proof -
  define g1 where "g1 = g\<lparr>baseline_acc := [0 + (\<Sum>t\<leftarrow>ts. cal_acc_sample 0 t),
                               0 + (\<Sum>t\<leftarrow>ts. cal_acc_sample 1 t),
                               0 + (\<Sum>t\<leftarrow>ts. cal_acc_sample 2 t)],
              baseline_gyr := [0 + (\<Sum>t\<leftarrow>ts. cal_gyr_sample 0 t),
                               0 + (\<Sum>t\<leftarrow>ts. cal_gyr_sample 1 t),
                               0 + (\<Sum>t\<leftarrow>ts. cal_gyr_sample 2 t)]\<rparr>"
  have cf: "calib_for 0 ts g = Some (g1, [])"
    unfolding g1_def using assms by (intro calib_for_ok) simp_all
  have fb: "fold baseline_div [0, 1, 2] g1 =
      g1\<lparr>baseline_acc := [(0 + (\<Sum>t\<leftarrow>ts. cal_acc_sample 0 t)) / real (CALIBRATION_WINDOWS * N),
                          (0 + (\<Sum>t\<leftarrow>ts. cal_acc_sample 1 t)) / real (CALIBRATION_WINDOWS * N),
                          (0 + (\<Sum>t\<leftarrow>ts. cal_acc_sample 2 t)) / real (CALIBRATION_WINDOWS * N)],
         baseline_gyr := [(0 + (\<Sum>t\<leftarrow>ts. cal_gyr_sample 0 t)) / real (CALIBRATION_WINDOWS * N),
                          (0 + (\<Sum>t\<leftarrow>ts. cal_gyr_sample 1 t)) / real (CALIBRATION_WINDOWS * N),
                          (0 + (\<Sum>t\<leftarrow>ts. cal_gyr_sample 2 t)) / real (CALIBRATION_WINDOWS * N)]\<rparr>"
    by (rule fold_baseline_div) (simp_all add: g1_def)
  have "calibrate ts g = Some ((fold baseline_div [0, 1, 2] g1)\<lparr>is_calibrated := True\<rparr>, [])"
    by (simp only: calibrate_def cf option.case prod.case)
  then show ?thesis
    unfolding fb by (simp add: g1_def)
qed

lemma calibrate_signed_mean:
  assumes "\<forall>t\<in>set ts. reads_ok t" "length ts = CALIBRATION_WINDOWS * N"
    "baseline_acc g = [0, 0, 0]" "baseline_gyr g = [0, 0, 0]"
    and "\<forall>t\<in>set ts. \<forall>j<3. snd (axis_bytes j (acc_data t)) < 128 \<and> snd (axis_bytes j (gyr_data t)) < 128"
  shows "calibrate ts g =
     Some (g\<lparr>baseline_acc := [(\<Sum>t\<leftarrow>ts. live_acc_sample 0 t) / real (CALIBRATION_WINDOWS * N),
                               (\<Sum>t\<leftarrow>ts. live_acc_sample 1 t) / real (CALIBRATION_WINDOWS * N),
                               (\<Sum>t\<leftarrow>ts. live_acc_sample 2 t) / real (CALIBRATION_WINDOWS * N)],
              baseline_gyr := [(\<Sum>t\<leftarrow>ts. live_gyr_sample 0 t) / real (CALIBRATION_WINDOWS * N),
                               (\<Sum>t\<leftarrow>ts. live_gyr_sample 1 t) / real (CALIBRATION_WINDOWS * N),
                               (\<Sum>t\<leftarrow>ts. live_gyr_sample 2 t) / real (CALIBRATION_WINDOWS * N)],
              is_calibrated := True\<rparr>, [])"
proof -
  have e: "map (cal_acc_sample 0) ts = map (live_acc_sample 0) ts"
    "map (cal_acc_sample 1) ts = map (live_acc_sample 1) ts"
    "map (cal_acc_sample 2) ts = map (live_acc_sample 2) ts"
    "map (cal_gyr_sample 0) ts = map (live_gyr_sample 0) ts"
    "map (cal_gyr_sample 1) ts = map (live_gyr_sample 1) ts"
    "map (cal_gyr_sample 2) ts = map (live_gyr_sample 2) ts"
    using assms(5) by (simp_all add: cal_sample_live_sample)
  show ?thesis
    using calibrate_ok [OF assms(1-4)] by (simp only: e)
qed

text \<open>
  Claim C4. Every read of the calibration phase succeeds and every tick reads the raw
  value -1 on the X axis of the accelerometer (bytes \<open>0xFF 0xFF\<close>), whose physical-unit
  sample, as the acquisition loop scales it, is -0.000061 g. The baseline of AX after
  calibration is 3.997635 g, while the mean of these samples is -0.000061 g.
\<close>

theorem calibration_negative_reading:
  "calibrate (replicate (CALIBRATION_WINDOWS * N)
       \<lparr> acc_rc = 0, acc_data = Data6 0xFF 0xFF 0 0 0 0, gyr_rc = 0, gyr_data = Data6 0 0 0 0 0 0 \<rparr>) boot
     = Some (boot\<lparr>baseline_acc := [3.997635, 0, 0], is_calibrated := True\<rparr>, [])
   \<and> (\<Sum>t\<leftarrow>replicate (CALIBRATION_WINDOWS * N)
          \<lparr> acc_rc = 0, acc_data = Data6 0xFF 0xFF 0 0 0 0, gyr_rc = 0, gyr_data = Data6 0 0 0 0 0 0 \<rparr>.
        live_acc_sample 0 t) / real (CALIBRATION_WINDOWS * N) = - 0.000061"
proof -
  let ?t = "\<lparr> acc_rc = 0, acc_data = Data6 0xFF 0xFF 0 0 0 0, gyr_rc = 0, gyr_data = Data6 0 0 0 0 0 0 \<rparr>"
  let ?n = "CALIBRATION_WINDOWS * N"
  have n: "real ?n \<noteq> 0"
    by (simp add: CALIBRATION_WINDOWS_def N_def Fs_def WIN_S_def)
  have s: "cal_acc_sample 0 ?t = 3.997635" "cal_acc_sample 1 ?t = 0" "cal_acc_sample 2 ?t = 0"
    "cal_gyr_sample 0 ?t = 0" "cal_gyr_sample 1 ?t = 0" "cal_gyr_sample 2 ?t = 0"
    by (simp_all add: cal_acc_sample_def cal_gyr_sample_def axis_bytes_def cal_raw_def
          assemble_def ACC_LSB_def)
  have l: "live_acc_sample 0 ?t = - 0.000061"
    by (simp add: live_acc_sample_def axis_bytes_def live_raw_def assemble_def ACC_LSB_def)
  have m: "\<And>f. (\<Sum>t\<leftarrow>replicate ?n ?t. f t) / real ?n = (f ?t :: real)"
    using n by (simp add: sum_list_replicate)
  have "calibrate (replicate ?n ?t) boot =
     Some (boot\<lparr>baseline_acc := [(\<Sum>t\<leftarrow>replicate ?n ?t. cal_acc_sample 0 t) / real ?n,
                               (\<Sum>t\<leftarrow>replicate ?n ?t. cal_acc_sample 1 t) / real ?n,
                               (\<Sum>t\<leftarrow>replicate ?n ?t. cal_acc_sample 2 t) / real ?n],
              baseline_gyr := [(\<Sum>t\<leftarrow>replicate ?n ?t. cal_gyr_sample 0 t) / real ?n,
                               (\<Sum>t\<leftarrow>replicate ?n ?t. cal_gyr_sample 1 t) / real ?n,
                               (\<Sum>t\<leftarrow>replicate ?n ?t. cal_gyr_sample 2 t) / real ?n],
              is_calibrated := True\<rparr>, [])"
    by (rule calibrate_ok) (simp_all add: reads_ok_def boot_def)
  then have "calibrate (replicate ?n ?t) boot
     = Some (boot\<lparr>baseline_acc := [3.997635, 0, 0], baseline_gyr := [0, 0, 0], is_calibrated := True\<rparr>, [])"
    by (simp only: m s)
  then have "calibrate (replicate ?n ?t) boot
     = Some (boot\<lparr>baseline_acc := [3.997635, 0, 0], is_calibrated := True\<rparr>, [])"
    by (simp add: boot_def)
  moreover have "(\<Sum>t\<leftarrow>replicate ?n ?t. live_acc_sample 0 t) / real ?n = - 0.000061"
    by (simp only: m l)
  ultimately show ?thesis by simp
qed

subsection \<open>Windows with one active channel\<close>

lemma threshold_logic_quiet_channel:
  "quiet c sp \<Longrightarrow> threshold_logic (channel_tth c) (channel_dth c) scale sp dt = dt"
  by (simp add: quiet_def threshold_logic_quiet)

lemma detect_single_channel:
  assumes "length sps = 6" "c < 6" "\<forall>c'<6. c' \<noteq> c \<longrightarrow> quiet c' (sps ! c')"
  shows "detect_of_spectra sps =
     clamp_levels (threshold_logic (channel_tth c) (channel_dth c) (channel_scale c) (sps ! c) detect_init)"
proof -
  from assms(1) obtain s0 s1 s2 s3 s4 s5 where sps: "sps = [s0, s1, s2, s3, s4, s5]"
    by (auto simp: length_Suc_conv numeral_eq_Suc)
  from assms(2) have "c = 0 \<or> c = 1 \<or> c = 2 \<or> c = 3 \<or> c = 4 \<or> c = 5" by arith
  then show ?thesis
    using assms(3) unfolding sps all_less_6
    by (elim disjE) (simp_all add: detect_of_spectra_def threshold_logic_quiet_channel)
qed

lemma tremor_test_scenario:
  assumes "p35 sp = 0.15"
  shows "tremor_test ACC_T_TH sp \<longleftrightarrow> 0.05 < rms sp \<and> rms sp < 0.10"
proof (cases "rms sp \<le> 0")
  case True
  then show ?thesis by (simp add: tremor_test_def ACC_T_TH_def)
next
  case False
  then have pos: "0 < rms sp" by simp
  have "ratio_gt (p35 sp) (rms sp) PEAK_TO_RMS \<longleftrightarrow> rms sp < 0.10"
    using pos by (simp add: ratio_gt_def assms PEAK_TO_RMS_def field_simps)
  then show ?thesis
    by (auto simp: tremor_test_def assms ACC_T_TH_def)
qed

text \<open>
  Claim C1 (amended). In a window where one accelerometer channel has \<open>p35 = 0.15\<close> and
  fails the 5-7 Hz test and the other five channels pass no test: with \<open>rms = 0.05\<close> the
  test \<^verbatim>\<open>rms > tth * 0.5f\<close> is false, no flag is set, the levels are 0 and nothing is
  shown; with \<open>0.05 < rms < 0.10\<close> the tremor flag is set with level \<open>0.15 / 0.5 = 0.30\<close>,
  the dyskinesia flag is not, and tremor is shown (\<^verbatim>\<open>STABLE_WINDOWS\<close> is 1; the tremor
  counter is not negative and below the largest \<^verbatim>\<open>int\<close>, so that its increment does not
  overflow).
\<close>

theorem scenario_rms_floor:
  assumes "length sps = 6" "c < 3" "p35 (sps ! c) = 0.15"
    and "\<not> dyskinesia_test (channel_dth c) (sps ! c)"
    and "\<forall>c'<6. c' \<noteq> c \<longrightarrow> quiet c' (sps ! c')"
    and "0 \<le> sint (stable_tremor g)" "sint (stable_tremor g) < 2147483647"
  shows "(rms (sps ! c) = 0.05 \<longrightarrow>
            detect_of_spectra sps = detect_init \<and>
            fst (decide STABLE_WINDOWS (detect_of_spectra sps) g)
              = \<lparr> show_tremor = False, show_dyskinesia = False \<rparr>)
       \<and> (0.05 < rms (sps ! c) \<and> rms (sps ! c) < 0.10 \<longrightarrow>
            detect_of_spectra sps = \<lparr> trem = True, dysk = False, levelT = 0.30, levelD = 0 \<rparr> \<and>
            fst (decide STABLE_WINDOWS (detect_of_spectra sps) g)
              = \<lparr> show_tremor = True, show_dyskinesia = False \<rparr>)"
proof -
  from assms(2) have c6: "c < 6" and par: "channel_tth c = ACC_T_TH" "channel_scale c = 0.5"
    by (simp_all add: channel_tth_def channel_scale_def)
  have d: "detect_of_spectra sps =
     clamp_levels (threshold_logic ACC_T_TH (channel_dth c) 0.5 (sps ! c) detect_init)"
    using detect_single_channel [OF assms(1) c6 assms(5)] par by simp
  have t: "tremor_test ACC_T_TH (sps ! c) \<longleftrightarrow> 0.05 < rms (sps ! c) \<and> rms (sps ! c) < 0.10"
    by (rule tremor_test_scenario [OF assms(3)])
  have s: "sint (stable_tremor g + 1) = sint (stable_tremor g) + 1"
    by (rule sint_inc [OF assms(7)])
  show ?thesis
    using assms(3,4,6) unfolding d
    by (simp add: t s threshold_logic_def clamp_levels_def detect_init_def decide_def
          stability_def dyskinesia_wins_def STABLE_WINDOWS_def Let_def)
qed

theorem scenario_rms_floor_witness:
  "detect_of_spectra
     [\<lparr> rms = 0, p35 = 0, k35 = 7, p57 = 0, k57 = 12 \<rparr>,
      \<lparr> rms = 0.06, p35 = 0.15, k35 = 10, p57 = 0.02, k57 = 14 \<rparr>,
      \<lparr> rms = 0, p35 = 0, k35 = 7, p57 = 0, k57 = 12 \<rparr>,
      \<lparr> rms = 0, p35 = 0, k35 = 7, p57 = 0, k57 = 12 \<rparr>,
      \<lparr> rms = 0, p35 = 0, k35 = 7, p57 = 0, k57 = 12 \<rparr>,
      \<lparr> rms = 0, p35 = 0, k35 = 7, p57 = 0, k57 = 12 \<rparr>]
     = \<lparr> trem = True, dysk = False, levelT = 0.30, levelD = 0 \<rparr> \<and>
   fst (decide STABLE_WINDOWS (detect_of_spectra
     [\<lparr> rms = 0, p35 = 0, k35 = 7, p57 = 0, k57 = 12 \<rparr>,
      \<lparr> rms = 0.06, p35 = 0.15, k35 = 10, p57 = 0.02, k57 = 14 \<rparr>,
      \<lparr> rms = 0, p35 = 0, k35 = 7, p57 = 0, k57 = 12 \<rparr>,
      \<lparr> rms = 0, p35 = 0, k35 = 7, p57 = 0, k57 = 12 \<rparr>,
      \<lparr> rms = 0, p35 = 0, k35 = 7, p57 = 0, k57 = 12 \<rparr>,
      \<lparr> rms = 0, p35 = 0, k35 = 7, p57 = 0, k57 = 12 \<rparr>]) boot)
     = \<lparr> show_tremor = True, show_dyskinesia = False \<rparr> \<and>
   detect_of_spectra
     [\<lparr> rms = 0, p35 = 0, k35 = 7, p57 = 0, k57 = 12 \<rparr>,
      \<lparr> rms = 0.05, p35 = 0.15, k35 = 10, p57 = 0.02, k57 = 14 \<rparr>,
      \<lparr> rms = 0, p35 = 0, k35 = 7, p57 = 0, k57 = 12 \<rparr>,
      \<lparr> rms = 0, p35 = 0, k35 = 7, p57 = 0, k57 = 12 \<rparr>,
      \<lparr> rms = 0, p35 = 0, k35 = 7, p57 = 0, k57 = 12 \<rparr>,
      \<lparr> rms = 0, p35 = 0, k35 = 7, p57 = 0, k57 = 12 \<rparr>]
     = detect_init"
proof -
  let ?z = "\<lparr> rms = 0, p35 = 0, k35 = 7, p57 = 0, k57 = 12 \<rparr>"
  let ?a = "\<lparr> rms = 0.06, p35 = 0.15, k35 = 10, p57 = 0.02, k57 = 14 \<rparr>"
  let ?b = "\<lparr> rms = 0.05, p35 = 0.15, k35 = 10, p57 = 0.02, k57 = 14 \<rparr>"
  let ?sa = "[?z, ?a, ?z, ?z, ?z, ?z]"
  let ?sb = "[?z, ?b, ?z, ?z, ?z, ?z]"
  have g: "0 \<le> sint (stable_tremor boot)" "sint (stable_tremor boot) < 2147483647"
    by (simp_all add: boot_def)
  have c: "(1::nat) < 3" by simp
  have a1: "length ?sa = 6" "p35 (?sa ! 1) = 0.15" by simp_all
  have a2: "\<not> dyskinesia_test (channel_dth 1) (?sa ! 1)"
    by (simp add: dyskinesia_test_def channel_dth_def ACC_D_TH_def)
  have a3: "\<forall>c'<6. c' \<noteq> 1 \<longrightarrow> quiet c' (?sa ! c')"
    by (simp add: all_less_6 quiet_def zero_tests)
  have a4: "0.05 < rms (?sa ! 1) \<and> rms (?sa ! 1) < 0.10" by simp
  have b1: "length ?sb = 6" "p35 (?sb ! 1) = 0.15" by simp_all
  have b2: "\<not> dyskinesia_test (channel_dth 1) (?sb ! 1)"
    by (simp add: dyskinesia_test_def channel_dth_def ACC_D_TH_def)
  have b3: "\<forall>c'<6. c' \<noteq> 1 \<longrightarrow> quiet c' (?sb ! c')"
    by (simp add: all_less_6 quiet_def zero_tests)
  have b4: "rms (?sb ! 1) = 0.05" by simp
  from scenario_rms_floor [OF a1(1) c a1(2) a2 a3 g] a4
  have "detect_of_spectra ?sa = \<lparr> trem = True, dysk = False, levelT = 0.30, levelD = 0 \<rparr> \<and>
    fst (decide STABLE_WINDOWS (detect_of_spectra ?sa) boot)
      = \<lparr> show_tremor = True, show_dyskinesia = False \<rparr>"
    by blast
  moreover from scenario_rms_floor [OF b1(1) c b1(2) b2 b3 g] b4
  have "detect_of_spectra ?sb = detect_init"
    by blast
  ultimately show ?thesis by blast
qed

text \<open>
  The scenario as the claim states it: a magnitude spectrum of AX whose summary has
  \<open>p35 = 0.15\<close> and \<open>rms = 0.05\<close>, and silence on the other channels. The 5-7 Hz test does
  not pass, and the tremor flag is not set.
\<close>

theorem scenario_rms_floor_counterexample:
  "spectral_summary i3 i5 i7 ((replicate 128 0)[1 := 0.15, 2 := 0.05, 9 := 0.15])
     = Some \<lparr> rms = 0.05, p35 = 0.15, k35 = 9, p57 = 0, k57 = 12 \<rparr> \<and>
   \<not> dyskinesia_test ACC_D_TH \<lparr> rms = 0.05, p35 = 0.15, k35 = 9, p57 = 0, k57 = 12 \<rparr> \<and>
   \<not> trem (detect_of_spectra
     [\<lparr> rms = 0.05, p35 = 0.15, k35 = 9, p57 = 0, k57 = 12 \<rparr>,
      \<lparr> rms = 0, p35 = 0, k35 = 7, p57 = 0, k57 = 12 \<rparr>,
      \<lparr> rms = 0, p35 = 0, k35 = 7, p57 = 0, k57 = 12 \<rparr>,
      \<lparr> rms = 0, p35 = 0, k35 = 7, p57 = 0, k57 = 12 \<rparr>,
      \<lparr> rms = 0, p35 = 0, k35 = 7, p57 = 0, k57 = 12 \<rparr>,
      \<lparr> rms = 0, p35 = 0, k35 = 7, p57 = 0, k57 = 12 \<rparr>])"
proof -
  have "sqrt (1 / 400) = 1 / 20"
    by (rule real_sqrt_unique) (simp_all add: power2_eq_square)
  then have "spectral_summary i3 i5 i7 ((replicate 128 0)[1 := 0.15, 2 := 0.05, 9 := 0.15])
     = Some \<lparr> rms = 0.05, p35 = 0.15, k35 = 9, p57 = 0, k57 = 12 \<rparr>"
    by (simp add: bins spectral_summary_def rms_loop.simps peak_loop.simps mag_at_def)
  then show ?thesis
    by (simp add: detect_of_spectra_def threshold_logic_def clamp_levels_def detect_init_def
          tremor_test_def dyskinesia_test_def ratio_gt_def channel_tth_def channel_dth_def
          channel_scale_def ACC_T_TH_def ACC_D_TH_def GYR_T_TH_def GYR_D_TH_def PEAK_TO_RMS_def)
qed

subsection \<open>Stability filter over a run of windows\<close>

lemma decide_counters:
  "stable_tremor (snd (decide sw dt g)) = stable_tremor (snd (stability sw dt g))"
  "stable_dyskinesia (snd (decide sw dt g)) = stable_dyskinesia (snd (stability sw dt g))"
  "fst (decide sw dt g) = fst (stability sw dt g)"
  by (simp_all add: decide_def led_feedback_def Let_def split: prod.splits)

lemma decide_tremor:
  assumes "tremor_wins dt"
  shows "stable_tremor (snd (decide sw dt g)) = stable_tremor g + 1"
    "stable_dyskinesia (snd (decide sw dt g)) = 0"
    "show_tremor (fst (decide sw dt g)) \<longleftrightarrow> sint sw \<le> sint (stable_tremor g + 1)"
    "\<not> show_dyskinesia (fst (decide sw dt g))"
    "show_tremor (fst (decide sw dt g)) \<Longrightarrow> led_tremor (snd (decide sw dt g)) = levelT dt"
    "led_dyskinesia (snd (decide sw dt g)) = 0"
  using assms
  by (simp_all add: decide_def stability_def led_feedback_def tremor_wins_def Let_def)

lemma decide_dyskinesia:
  assumes "dyskinesia_wins dt"
  shows "stable_dyskinesia (snd (decide sw dt g)) = stable_dyskinesia g + 1"
    "stable_tremor (snd (decide sw dt g)) = 0"
    "show_dyskinesia (fst (decide sw dt g)) \<longleftrightarrow> sint sw \<le> sint (stable_dyskinesia g + 1)"
    "\<not> show_tremor (fst (decide sw dt g))"
    "show_dyskinesia (fst (decide sw dt g)) \<Longrightarrow> led_dyskinesia (snd (decide sw dt g)) = levelD dt"
    "led_tremor (snd (decide sw dt g)) = 0"
  using assms
  by (simp_all add: decide_def stability_def led_feedback_def Let_def)

lemma decide_not_tremor:
  "\<not> tremor_wins dt \<Longrightarrow> stable_tremor (snd (decide sw dt g)) = 0"
  "\<not> tremor_wins dt \<Longrightarrow> \<not> show_tremor (fst (decide sw dt g))"
  by (auto simp: decide_def stability_def led_feedback_def tremor_wins_def Let_def)

lemma decide_not_dyskinesia:
  "\<not> dyskinesia_wins dt \<Longrightarrow> stable_dyskinesia (snd (decide sw dt g)) = 0"
  "\<not> dyskinesia_wins dt \<Longrightarrow> \<not> show_dyskinesia (fst (decide sw dt g))"
  by (simp_all add: decide_def stability_def led_feedback_def Let_def)

lemma wins_exclusive: "\<not> (tremor_wins dt \<and> dyskinesia_wins dt)"
  by (simp add: tremor_wins_def)

text \<open>
  One window keeps a counter between 0 and \<open>n + 1\<close> when it was between 0 and \<open>n\<close> and
  \<open>n\<close> is below the largest \<^verbatim>\<open>int\<close>.
\<close>

lemma decide_bounded:
  assumes "n < 2147483647"
  shows "0 \<le> sint (stable_tremor g) \<and> sint (stable_tremor g) \<le> n \<Longrightarrow>
         0 \<le> sint (stable_tremor (snd (decide sw dt g))) \<and>
         sint (stable_tremor (snd (decide sw dt g))) \<le> n + 1"
    and "0 \<le> sint (stable_dyskinesia g) \<and> sint (stable_dyskinesia g) \<le> n \<Longrightarrow>
         0 \<le> sint (stable_dyskinesia (snd (decide sw dt g))) \<and>
         sint (stable_dyskinesia (snd (decide sw dt g))) \<le> n + 1"
proof -
  assume a: "0 \<le> sint (stable_tremor g) \<and> sint (stable_tremor g) \<le> n"
  show "0 \<le> sint (stable_tremor (snd (decide sw dt g))) \<and>
         sint (stable_tremor (snd (decide sw dt g))) \<le> n + 1"
  proof (cases "tremor_wins dt")
    case True
    from a assms have "sint (stable_tremor g + 1) = sint (stable_tremor g) + 1"
      by (intro sint_inc) simp
    with a show ?thesis by (simp add: decide_tremor(1) [OF True])
  next
    case False
    with a show ?thesis by (simp add: decide_not_tremor(1))
  qed
next
  assume a: "0 \<le> sint (stable_dyskinesia g) \<and> sint (stable_dyskinesia g) \<le> n"
  show "0 \<le> sint (stable_dyskinesia (snd (decide sw dt g))) \<and>
         sint (stable_dyskinesia (snd (decide sw dt g))) \<le> n + 1"
  proof (cases "dyskinesia_wins dt")
    case True
    from a assms have "sint (stable_dyskinesia g + 1) = sint (stable_dyskinesia g) + 1"
      by (intro sint_inc) simp
    with a show ?thesis by (simp add: decide_dyskinesia(1) [OF True])
  next
    case False
    with a show ?thesis by (simp add: decide_not_dyskinesia(1))
  qed
qed

lemma run_windows_Cons:
  "run_windows sw (dt # dts) g =
     (fst (decide sw dt g) # fst (run_windows sw dts (snd (decide sw dt g))),
      snd (run_windows sw dts (snd (decide sw dt g))))"
  by (simp add: Let_def split: prod.splits)

lemma run_windows_append:
  "run_windows sw (xs @ ys) g =
     (fst (run_windows sw xs g) @ fst (run_windows sw ys (snd (run_windows sw xs g))),
      snd (run_windows sw ys (snd (run_windows sw xs g))))"
  by (induction xs arbitrary: g) (simp_all add: run_windows_Cons del: run_windows.simps(2))

lemma run_windows_snoc:
  "run_windows sw (dts @ [dt]) g =
     (fst (run_windows sw dts g) @ [fst (decide sw dt (snd (run_windows sw dts g)))],
      snd (decide sw dt (snd (run_windows sw dts g))))"
  by (simp add: run_windows_append run_windows_Cons del: run_windows.simps(2))

lemma length_run_windows: "length (fst (run_windows sw dts g)) = length dts"
  by (induction dts arbitrary: g) (simp_all add: run_windows_Cons del: run_windows.simps(2))

text \<open>
  From counters between 0 and \<open>m\<close>, after a sequence of windows that together with \<open>m\<close>
  stays within the largest \<^verbatim>\<open>int\<close>, each counter lies between 0 and \<open>m\<close> plus the number of
  windows: no increment has overflowed.
\<close>

lemma run_windows_bounded:
  assumes "0 \<le> sint (stable_tremor g) \<and> sint (stable_tremor g) \<le> m"
    and "0 \<le> sint (stable_dyskinesia g) \<and> sint (stable_dyskinesia g) \<le> m"
    and "m + int (length dts) \<le> 2147483647"
  shows "0 \<le> sint (stable_tremor (snd (run_windows sw dts g))) \<and>
         sint (stable_tremor (snd (run_windows sw dts g))) \<le> m + int (length dts)"
    and "0 \<le> sint (stable_dyskinesia (snd (run_windows sw dts g))) \<and>
         sint (stable_dyskinesia (snd (run_windows sw dts g))) \<le> m + int (length dts)"
  using assms(3)
proof (induction dts rule: rev_induct)
  case Nil
  {
    case 1
    from assms(1) show ?case by simp
  next
    case 2
    from assms(2) show ?case by simp
  }
next
  case (snoc dt dts)
  {
    case 1
    then have n: "m + int (length dts) < 2147483647" by simp
    then have "0 \<le> sint (stable_tremor (snd (run_windows sw dts g))) \<and>
         sint (stable_tremor (snd (run_windows sw dts g))) \<le> m + int (length dts)"
      by (intro snoc.IH(1)) simp
    from decide_bounded(1) [OF n this, of sw dt] show ?case
      by (simp add: run_windows_snoc add.assoc)
  next
    case 2
    then have n: "m + int (length dts) < 2147483647" by simp
    then have "0 \<le> sint (stable_dyskinesia (snd (run_windows sw dts g))) \<and>
         sint (stable_dyskinesia (snd (run_windows sw dts g))) \<le> m + int (length dts)"
      by (intro snoc.IH(2)) simp
    from decide_bounded(2) [OF n this, of sw dt] show ?case
      by (simp add: run_windows_snoc add.assoc)
  }
qed

lemma run_tremor_count:
  assumes "\<forall>dt\<in>set dts. tremor_wins dt" "0 \<le> sint (stable_tremor g)"
    "sint (stable_tremor g) + int (length dts) \<le> 2147483647"
  shows "sint (stable_tremor (snd (run_windows sw dts g))) = sint (stable_tremor g) + int (length dts)"
  using assms
proof (induction dts rule: rev_induct)
  case Nil
  show ?case by simp
next
  case (snoc dt dts)
  then have c: "sint (stable_tremor (snd (run_windows sw dts g)))
      = sint (stable_tremor g) + int (length dts)"
    by simp
  with snoc.prems have "sint (stable_tremor (snd (run_windows sw dts g))) < 2147483647"
    by simp
  from sint_inc [OF this] c snoc.prems(1) show ?case
    by (simp add: run_windows_snoc decide_tremor(1))
qed

lemma run_dyskinesia_count:
  assumes "\<forall>dt\<in>set dts. dyskinesia_wins dt" "0 \<le> sint (stable_dyskinesia g)"
    "sint (stable_dyskinesia g) + int (length dts) \<le> 2147483647"
  shows "sint (stable_dyskinesia (snd (run_windows sw dts g)))
      = sint (stable_dyskinesia g) + int (length dts)"
  using assms
proof (induction dts rule: rev_induct)
  case Nil
  show ?case by simp
next
  case (snoc dt dts)
  then have c: "sint (stable_dyskinesia (snd (run_windows sw dts g)))
      = sint (stable_dyskinesia g) + int (length dts)"
    by simp
  with snoc.prems have "sint (stable_dyskinesia (snd (run_windows sw dts g))) < 2147483647"
    by simp
  from sint_inc [OF this] c snoc.prems(1) show ?case
    by (simp add: run_windows_snoc decide_dyskinesia(1))
qed

lemma sint_le_max: "sint (w :: 32 word) \<le> 2147483647"
  using sint_lt [of w] by simp

lemma run_tremor_short:
  assumes "\<forall>dt\<in>set dts. tremor_wins dt" "0 \<le> sint (stable_tremor g)"
    "sint (stable_tremor g) + int (length dts) < sint sw"
  shows "\<forall>sh\<in>set (fst (run_windows sw dts g)). \<not> show_tremor sh"
  using assms
proof (induction dts rule: rev_induct)
  case Nil
  show ?case by simp
next
  case (snoc dt dts)
  from snoc.prems(3) sint_le_max [of sw]
  have b: "sint (stable_tremor g) + int (length dts) < 2147483647"
    "sint (stable_tremor g) + int (length dts) + 1 < sint sw"
    by simp_all
  from snoc.prems(1) have tw: "\<forall>dt\<in>set dts. tremor_wins dt" "tremor_wins dt" by simp_all
  have c: "sint (stable_tremor (snd (run_windows sw dts g)))
      = sint (stable_tremor g) + int (length dts)"
    using b(1) by (intro run_tremor_count [OF tw(1) snoc.prems(2)]) simp
  with b(1) have "sint (stable_tremor (snd (run_windows sw dts g)) + 1)
      = sint (stable_tremor g) + int (length dts) + 1"
    by (simp add: sint_inc)
  with b(2) have "\<not> show_tremor (fst (decide sw dt (snd (run_windows sw dts g))))"
    by (simp add: decide_tremor(3) [OF tw(2)])
  moreover have "\<forall>sh\<in>set (fst (run_windows sw dts g)). \<not> show_tremor sh"
    using b(2) by (intro snoc.IH [OF tw(1) snoc.prems(2)]) simp
  ultimately show ?case by (simp add: run_windows_snoc)
qed

lemma run_dyskinesia_short:
  assumes "\<forall>dt\<in>set dts. dyskinesia_wins dt" "0 \<le> sint (stable_dyskinesia g)"
    "sint (stable_dyskinesia g) + int (length dts) < sint sw"
  shows "\<forall>sh\<in>set (fst (run_windows sw dts g)). \<not> show_dyskinesia sh"
  using assms
proof (induction dts rule: rev_induct)
  case Nil
  show ?case by simp
next
  case (snoc dt dts)
  from snoc.prems(3) sint_le_max [of sw]
  have b: "sint (stable_dyskinesia g) + int (length dts) < 2147483647"
    "sint (stable_dyskinesia g) + int (length dts) + 1 < sint sw"
    by simp_all
  from snoc.prems(1) have tw: "\<forall>dt\<in>set dts. dyskinesia_wins dt" "dyskinesia_wins dt" by simp_all
  have c: "sint (stable_dyskinesia (snd (run_windows sw dts g)))
      = sint (stable_dyskinesia g) + int (length dts)"
    using b(1) by (intro run_dyskinesia_count [OF tw(1) snoc.prems(2)]) simp
  with b(1) have "sint (stable_dyskinesia (snd (run_windows sw dts g)) + 1)
      = sint (stable_dyskinesia g) + int (length dts) + 1"
    by (simp add: sint_inc)
  with b(2) have "\<not> show_dyskinesia (fst (decide sw dt (snd (run_windows sw dts g))))"
    by (simp add: decide_dyskinesia(3) [OF tw(2)])
  moreover have "\<forall>sh\<in>set (fst (run_windows sw dts g)). \<not> show_dyskinesia sh"
    using b(2) by (intro snoc.IH [OF tw(1) snoc.prems(2)]) simp
  ultimately show ?case by (simp add: run_windows_snoc)
qed

lemma after_history_tremor:
  assumes "stable_tremor g0 = 0" "hist = [] \<or> \<not> tremor_wins (last hist)"
  shows "stable_tremor (snd (run_windows sw hist g0)) = 0"
  using assms by (cases hist rule: rev_cases) (simp_all add: run_windows_snoc decide_not_tremor)

lemma after_history_dyskinesia:
  assumes "stable_dyskinesia g0 = 0" "hist = [] \<or> \<not> dyskinesia_wins (last hist)"
  shows "stable_dyskinesia (snd (run_windows sw hist g0)) = 0"
  using assms by (cases hist rule: rev_cases) (simp_all add: run_windows_snoc decide_not_dyskinesia)

lemma short_run_tremor:
  assumes "stable_tremor g0 = 0" "hist = [] \<or> \<not> tremor_wins (last hist)"
    "int (length run) = sint sw - 1" "\<forall>d\<in>set run. tremor_wins d" "\<not> tremor_wins dt"
  shows "\<forall>sh\<in>set (drop (length hist) (fst (run_windows sw (hist @ run @ [dt]) g0))). \<not> show_tremor sh"
proof -
  define g1 where "g1 = snd (run_windows sw hist g0)"
  have z: "stable_tremor g1 = 0"
    unfolding g1_def by (rule after_history_tremor [OF assms(1,2)])
  have d: "drop (length hist) (fst (run_windows sw (hist @ run @ [dt]) g0))
      = fst (run_windows sw run g1) @ [fst (decide sw dt (snd (run_windows sw run g1)))]"
    by (simp add: run_windows_append [of sw hist] run_windows_snoc length_run_windows g1_def)
  have "\<forall>sh\<in>set (fst (run_windows sw run g1)). \<not> show_tremor sh"
    using assms(3) z by (intro run_tremor_short [OF assms(4)]) simp_all
  then show ?thesis
    unfolding d using decide_not_tremor(2) [OF assms(5)] by simp
qed

lemma short_run_dyskinesia:
  assumes "stable_dyskinesia g0 = 0" "hist = [] \<or> \<not> dyskinesia_wins (last hist)"
    "int (length run) = sint sw - 1" "\<forall>d\<in>set run. dyskinesia_wins d" "\<not> dyskinesia_wins dt"
  shows "\<forall>sh\<in>set (drop (length hist) (fst (run_windows sw (hist @ run @ [dt]) g0))). \<not> show_dyskinesia sh"
proof -
  define g1 where "g1 = snd (run_windows sw hist g0)"
  have z: "stable_dyskinesia g1 = 0"
    unfolding g1_def by (rule after_history_dyskinesia [OF assms(1,2)])
  have d: "drop (length hist) (fst (run_windows sw (hist @ run @ [dt]) g0))
      = fst (run_windows sw run g1) @ [fst (decide sw dt (snd (run_windows sw run g1)))]"
    by (simp add: run_windows_append [of sw hist] run_windows_snoc length_run_windows g1_def)
  have "\<forall>sh\<in>set (fst (run_windows sw run g1)). \<not> show_dyskinesia sh"
    using assms(3) z by (intro run_dyskinesia_short [OF assms(4)]) simp_all
  then show ?thesis
    unfolding d using decide_not_dyskinesia(2) [OF assms(5)] by simp
qed

lemma full_run_tremor:
  assumes "1 \<le> sint sw" "stable_tremor g0 = 0" "stable_dyskinesia g0 = 0"
    "int (length (hist @ run)) \<le> 2147483647"
    "int (length run) = sint sw" "\<forall>d\<in>set run. tremor_wins d"
  shows "show_tremor (last (fst (run_windows sw (hist @ run) g0))) \<and>
         led_tremor (snd (run_windows sw (hist @ run) g0)) = levelT (last run)"
proof -
  from assms(1,5) have "run \<noteq> []" by auto
  then obtain run' d where run: "run = run' @ [d]" by (meson rev_exhaust)
  define g1 where "g1 = snd (run_windows sw hist g0)"
  define g2 where "g2 = snd (run_windows sw run' g1)"
  from assms(6) run have tw: "\<forall>d\<in>set run'. tremor_wins d" "tremor_wins d" by simp_all
  have g1: "0 \<le> sint (stable_tremor g1) \<and> sint (stable_tremor g1) \<le> 0 + int (length hist)"
    unfolding g1_def using assms(2,3,4) by (intro run_windows_bounded(1)) simp_all
  have c2: "sint (stable_tremor g2) = sint (stable_tremor g1) + int (length run')"
    unfolding g2_def using g1 assms(4) run by (intro run_tremor_count [OF tw(1)]) simp_all
  with g1 assms(4) run have "sint (stable_tremor g2) < 2147483647" by simp
  from sint_inc [OF this] c2 g1 assms(5) run have "sint sw \<le> sint (stable_tremor g2 + 1)"
    by simp
  then have sh: "show_tremor (fst (decide sw d g2))"
    by (simp add: decide_tremor(3) [OF tw(2)])
  have eq: "run_windows sw (hist @ run) g0 =
      (fst (run_windows sw (hist @ run') g0) @ [fst (decide sw d g2)], snd (decide sw d g2))"
    using run_windows_snoc [of sw "hist @ run'" d g0]
    by (simp add: run g2_def g1_def run_windows_append [of sw hist])
  show ?thesis
    unfolding eq using sh decide_tremor(5) [OF tw(2) sh] by (simp add: run)
qed

lemma full_run_dyskinesia:
  assumes "1 \<le> sint sw" "stable_tremor g0 = 0" "stable_dyskinesia g0 = 0"
    "int (length (hist @ run)) \<le> 2147483647"
    "int (length run) = sint sw" "\<forall>d\<in>set run. dyskinesia_wins d"
  shows "show_dyskinesia (last (fst (run_windows sw (hist @ run) g0))) \<and>
         led_dyskinesia (snd (run_windows sw (hist @ run) g0)) = levelD (last run)"
proof -
  from assms(1,5) have "run \<noteq> []" by auto
  then obtain run' d where run: "run = run' @ [d]" by (meson rev_exhaust)
  define g1 where "g1 = snd (run_windows sw hist g0)"
  define g2 where "g2 = snd (run_windows sw run' g1)"
  from assms(6) run have tw: "\<forall>d\<in>set run'. dyskinesia_wins d" "dyskinesia_wins d" by simp_all
  have g1: "0 \<le> sint (stable_dyskinesia g1) \<and> sint (stable_dyskinesia g1) \<le> 0 + int (length hist)"
    unfolding g1_def using assms(2,3,4) by (intro run_windows_bounded(2)) simp_all
  have c2: "sint (stable_dyskinesia g2) = sint (stable_dyskinesia g1) + int (length run')"
    unfolding g2_def using g1 assms(4) run by (intro run_dyskinesia_count [OF tw(1)]) simp_all
  with g1 assms(4) run have "sint (stable_dyskinesia g2) < 2147483647" by simp
  from sint_inc [OF this] c2 g1 assms(5) run have "sint sw \<le> sint (stable_dyskinesia g2 + 1)"
    by simp
  then have sh: "show_dyskinesia (fst (decide sw d g2))"
    by (simp add: decide_dyskinesia(3) [OF tw(2)])
  have eq: "run_windows sw (hist @ run) g0 =
      (fst (run_windows sw (hist @ run') g0) @ [fst (decide sw d g2)], snd (decide sw d g2))"
    using run_windows_snoc [of sw "hist @ run'" d g0]
    by (simp add: run g2_def g1_def run_windows_append [of sw hist])
  show ?thesis
    unfolding eq using sh decide_dyskinesia(5) [OF tw(2) sh] by (simp add: run)
qed

text \<open>
  After a history that leaves room for one more increment, the window that follows
  increments the winner's counter without overflow, and leaves both counters at 0
  exactly when neither condition wins it.
\<close>

lemma reachable_step:
  assumes "stable_tremor g0 = 0" "stable_dyskinesia g0 = 0"
    "int (length hist) < 2147483647"
  shows "(tremor_wins dt \<longrightarrow>
            sint (stable_tremor (snd (run_windows sw (hist @ [dt]) g0)))
              = sint (stable_tremor (snd (run_windows sw hist g0))) + 1)
       \<and> (dyskinesia_wins dt \<longrightarrow>
            sint (stable_dyskinesia (snd (run_windows sw (hist @ [dt]) g0)))
              = sint (stable_dyskinesia (snd (run_windows sw hist g0))) + 1)
       \<and> (stable_tremor (snd (run_windows sw (hist @ [dt]) g0)) = 0 \<and>
          stable_dyskinesia (snd (run_windows sw (hist @ [dt]) g0)) = 0
            \<longleftrightarrow> \<not> tremor_wins dt \<and> \<not> dyskinesia_wins dt)"
proof -
  define g where "g = snd (run_windows sw hist g0)"
  have b: "0 \<le> sint (stable_tremor g) \<and> sint (stable_tremor g) \<le> 0 + int (length hist)"
    "0 \<le> sint (stable_dyskinesia g) \<and> sint (stable_dyskinesia g) \<le> 0 + int (length hist)"
    unfolding g_def using assms by (intro run_windows_bounded; simp)+
  with assms(3) have it: "sint (stable_tremor g + 1) = sint (stable_tremor g) + 1"
    and id: "sint (stable_dyskinesia g + 1) = sint (stable_dyskinesia g) + 1"
    by (simp_all add: sint_inc)
  from it b(1) have nt: "stable_tremor g + 1 \<noteq> 0" by auto
  from id b(2) have nd: "stable_dyskinesia g + 1 \<noteq> 0" by auto
  have s: "snd (run_windows sw (hist @ [dt]) g0) = snd (decide sw dt g)"
    by (simp add: run_windows_snoc g_def)
  show ?thesis
    unfolding s g_def [symmetric]
    using it id nt nd decide_tremor(1) [of dt sw g] decide_dyskinesia(1) [of dt sw g]
      decide_not_tremor(1) [of dt sw g] decide_not_dyskinesia(1) [of dt sw g]
    by auto
qed

text \<open>
  At the largest \<^verbatim>\<open>int\<close> the increment wraps: a further tremor window leaves the counter
  at the smallest \<^verbatim>\<open>int\<close> and tremor is not shown. The properties of runs below are
  therefore stated for sequences of at most \<open>2\<^sup>3\<^sup>1 - 1\<close> windows.
\<close>

lemma counter_wraps:
  "sint (stable_tremor (snd (decide 1 \<lparr> trem = True, dysk = False, levelT = 0.5, levelD = 0 \<rparr>
      (boot\<lparr>stable_tremor := 2147483647\<rparr>)))) = - 2147483648 \<and>
   \<not> show_tremor (fst (decide 1 \<lparr> trem = True, dysk = False, levelT = 0.5, levelD = 0 \<rparr>
      (boot\<lparr>stable_tremor := 2147483647\<rparr>)))"
  by (simp add: decide_def stability_def led_feedback_def dyskinesia_wins_def boot_def Let_def)

text \<open>
  Claim C5 (amended). With \<open>stable_windows \<ge> 1\<close>, both counters 0 at the start, and a
  sequence of at most \<open>2\<^sup>3\<^sup>1 - 1\<close> windows, so that no counter overflows: a window that
  tremor does not win (dyskinesia wins it, or neither does) sets the tremor counter to 0
  and does not show tremor, and likewise for dyskinesia; a window that a condition wins
  increments its counter by one and sets the other counter to 0; both counters are 0
  after a window exactly when neither condition won it; a run of \<open>stable_windows - 1\<close>
  windows that a condition wins, coming first or after a window it did not win and
  followed by a window it does not win, shows the condition in none of these windows; the
  last of \<open>stable_windows\<close> consecutive windows that a condition wins shows it, and the
  duty cycle then written is the level of that last window.
\<close>

theorem stability_filter:
  assumes "1 \<le> sint sw" "stable_tremor g0 = 0" "stable_dyskinesia g0 = 0"
  shows
   "(\<not> tremor_wins dt \<longrightarrow>
        stable_tremor (snd (decide sw dt g)) = 0 \<and> \<not> show_tremor (fst (decide sw dt g)))
  \<and> (\<not> dyskinesia_wins dt \<longrightarrow>
        stable_dyskinesia (snd (decide sw dt g)) = 0 \<and> \<not> show_dyskinesia (fst (decide sw dt g)))
  \<and> (tremor_wins dt \<longrightarrow>
        stable_tremor (snd (decide sw dt g)) = stable_tremor g + 1 \<and>
        stable_dyskinesia (snd (decide sw dt g)) = 0)
  \<and> (dyskinesia_wins dt \<longrightarrow>
        stable_dyskinesia (snd (decide sw dt g)) = stable_dyskinesia g + 1 \<and>
        stable_tremor (snd (decide sw dt g)) = 0)
  \<and> (int (length (hist @ [dt])) \<le> 2147483647 \<longrightarrow>
        (tremor_wins dt \<longrightarrow>
            sint (stable_tremor (snd (run_windows sw (hist @ [dt]) g0)))
              = sint (stable_tremor (snd (run_windows sw hist g0))) + 1) \<and>
        (dyskinesia_wins dt \<longrightarrow>
            sint (stable_dyskinesia (snd (run_windows sw (hist @ [dt]) g0)))
              = sint (stable_dyskinesia (snd (run_windows sw hist g0))) + 1) \<and>
        (stable_tremor (snd (run_windows sw (hist @ [dt]) g0)) = 0 \<and>
         stable_dyskinesia (snd (run_windows sw (hist @ [dt]) g0)) = 0
           \<longleftrightarrow> \<not> tremor_wins dt \<and> \<not> dyskinesia_wins dt))
  \<and> ((hist = [] \<or> \<not> tremor_wins (last hist)) \<and> int (length run) = sint sw - 1 \<and>
      (\<forall>d\<in>set run. tremor_wins d) \<and> \<not> tremor_wins dt \<longrightarrow>
        (\<forall>sh\<in>set (drop (length hist) (fst (run_windows sw (hist @ run @ [dt]) g0))).
            \<not> show_tremor sh))
  \<and> ((hist = [] \<or> \<not> dyskinesia_wins (last hist)) \<and> int (length run) = sint sw - 1 \<and>
      (\<forall>d\<in>set run. dyskinesia_wins d) \<and> \<not> dyskinesia_wins dt \<longrightarrow>
        (\<forall>sh\<in>set (drop (length hist) (fst (run_windows sw (hist @ run @ [dt]) g0))).
            \<not> show_dyskinesia sh))
  \<and> (int (length (hist @ run)) \<le> 2147483647 \<and> int (length run) = sint sw \<and>
      (\<forall>d\<in>set run. tremor_wins d) \<longrightarrow>
        show_tremor (last (fst (run_windows sw (hist @ run) g0))) \<and>
        led_tremor (snd (run_windows sw (hist @ run) g0)) = levelT (last run))
  \<and> (int (length (hist @ run)) \<le> 2147483647 \<and> int (length run) = sint sw \<and>
      (\<forall>d\<in>set run. dyskinesia_wins d) \<longrightarrow>
        show_dyskinesia (last (fst (run_windows sw (hist @ run) g0))) \<and>
        led_dyskinesia (snd (run_windows sw (hist @ run) g0)) = levelD (last run))"
proof (intro conjI impI)
  assume "\<not> tremor_wins dt"
  then show "stable_tremor (snd (decide sw dt g)) = 0" "\<not> show_tremor (fst (decide sw dt g))"
    by (rule decide_not_tremor)+
next
  assume "\<not> dyskinesia_wins dt"
  then show "stable_dyskinesia (snd (decide sw dt g)) = 0" "\<not> show_dyskinesia (fst (decide sw dt g))"
    by (rule decide_not_dyskinesia)+
next
  assume "tremor_wins dt"
  then show "stable_tremor (snd (decide sw dt g)) = stable_tremor g + 1"
    "stable_dyskinesia (snd (decide sw dt g)) = 0"
    by (rule decide_tremor)+
next
  assume "dyskinesia_wins dt"
  then show "stable_dyskinesia (snd (decide sw dt g)) = stable_dyskinesia g + 1"
    "stable_tremor (snd (decide sw dt g)) = 0"
    by (rule decide_dyskinesia)+
next
  assume "int (length (hist @ [dt])) \<le> 2147483647"
  then have h: "int (length hist) < 2147483647" by simp
  note r = reachable_step [OF assms(2,3) h, of dt sw]
  { assume "tremor_wins dt"
    with r show "sint (stable_tremor (snd (run_windows sw (hist @ [dt]) g0)))
              = sint (stable_tremor (snd (run_windows sw hist g0))) + 1"
      by blast }
  { assume "dyskinesia_wins dt"
    with r show "sint (stable_dyskinesia (snd (run_windows sw (hist @ [dt]) g0)))
              = sint (stable_dyskinesia (snd (run_windows sw hist g0))) + 1"
      by blast }
  from r show "stable_tremor (snd (run_windows sw (hist @ [dt]) g0)) = 0 \<and>
         stable_dyskinesia (snd (run_windows sw (hist @ [dt]) g0)) = 0
           \<longleftrightarrow> \<not> tremor_wins dt \<and> \<not> dyskinesia_wins dt"
    by blast
next
  assume "(hist = [] \<or> \<not> tremor_wins (last hist)) \<and> int (length run) = sint sw - 1 \<and>
      (\<forall>d\<in>set run. tremor_wins d) \<and> \<not> tremor_wins dt"
  then show "\<forall>sh\<in>set (drop (length hist) (fst (run_windows sw (hist @ run @ [dt]) g0))). \<not> show_tremor sh"
    using short_run_tremor [OF assms(2)] by blast
next
  assume "(hist = [] \<or> \<not> dyskinesia_wins (last hist)) \<and> int (length run) = sint sw - 1 \<and>
      (\<forall>d\<in>set run. dyskinesia_wins d) \<and> \<not> dyskinesia_wins dt"
  then show "\<forall>sh\<in>set (drop (length hist) (fst (run_windows sw (hist @ run @ [dt]) g0))). \<not> show_dyskinesia sh"
    using short_run_dyskinesia [OF assms(3)] by blast
next
  assume a: "int (length (hist @ run)) \<le> 2147483647 \<and> int (length run) = sint sw \<and>
      (\<forall>d\<in>set run. tremor_wins d)"
  from full_run_tremor [OF assms, of hist run] a
  show "show_tremor (last (fst (run_windows sw (hist @ run) g0)))"
    "led_tremor (snd (run_windows sw (hist @ run) g0)) = levelT (last run)"
    by blast+
next
  assume a: "int (length (hist @ run)) \<le> 2147483647 \<and> int (length run) = sint sw \<and>
      (\<forall>d\<in>set run. dyskinesia_wins d)"
  from full_run_dyskinesia [OF assms, of hist run] a
  show "show_dyskinesia (last (fst (run_windows sw (hist @ run) g0)))"
    "led_dyskinesia (snd (run_windows sw (hist @ run) g0)) = levelD (last run)"
    by blast+
qed

text \<open>
  With two windows required: one tremor window followed by a silent window shows nothing
  and leaves both counters at 0; two tremor windows show tremor in the second, with the
  duty cycle of the second, the counter going from 1 to 2, and likewise two dyskinesia
  windows; a window that dyskinesia wins sets a tremor counter of 1 back to 0 and
  increments the dyskinesia counter.
\<close>

theorem stability_filter_witness:
  "\<not> show_tremor (fst (run_windows 2
        [\<lparr> trem = True, dysk = False, levelT = 0.5, levelD = 0 \<rparr>,
         \<lparr> trem = False, dysk = False, levelT = 0, levelD = 0 \<rparr>] boot) ! 0) \<and>
   \<not> show_tremor (fst (run_windows 2
        [\<lparr> trem = True, dysk = False, levelT = 0.5, levelD = 0 \<rparr>,
         \<lparr> trem = False, dysk = False, levelT = 0, levelD = 0 \<rparr>] boot) ! 1) \<and>
   stable_tremor (snd (run_windows 2
        [\<lparr> trem = True, dysk = False, levelT = 0.5, levelD = 0 \<rparr>,
         \<lparr> trem = False, dysk = False, levelT = 0, levelD = 0 \<rparr>] boot)) = 0 \<and>
   stable_dyskinesia (snd (run_windows 2
        [\<lparr> trem = True, dysk = False, levelT = 0.5, levelD = 0 \<rparr>,
         \<lparr> trem = False, dysk = False, levelT = 0, levelD = 0 \<rparr>] boot)) = 0 \<and>
   show_tremor (last (fst (run_windows 2
        [\<lparr> trem = True, dysk = False, levelT = 0.5, levelD = 0 \<rparr>,
         \<lparr> trem = True, dysk = False, levelT = 0.7, levelD = 0 \<rparr>] boot))) \<and>
   led_tremor (snd (run_windows 2
        [\<lparr> trem = True, dysk = False, levelT = 0.5, levelD = 0 \<rparr>,
         \<lparr> trem = True, dysk = False, levelT = 0.7, levelD = 0 \<rparr>] boot)) = 0.7 \<and>
   sint (stable_tremor (snd (run_windows 2
        [\<lparr> trem = True, dysk = False, levelT = 0.5, levelD = 0 \<rparr>,
         \<lparr> trem = True, dysk = False, levelT = 0.7, levelD = 0 \<rparr>] boot)))
     = sint (stable_tremor (snd (run_windows 2
        [\<lparr> trem = True, dysk = False, levelT = 0.5, levelD = 0 \<rparr>] boot))) + 1 \<and>
   show_dyskinesia (last (fst (run_windows 2
        [\<lparr> trem = True, dysk = True, levelT = 0.2, levelD = 0.6 \<rparr>,
         \<lparr> trem = False, dysk = True, levelT = 0, levelD = 0.3 \<rparr>] boot))) \<and>
   led_dyskinesia (snd (run_windows 2
        [\<lparr> trem = True, dysk = True, levelT = 0.2, levelD = 0.6 \<rparr>,
         \<lparr> trem = False, dysk = True, levelT = 0, levelD = 0.3 \<rparr>] boot)) = 0.3 \<and>
   stable_tremor (snd (decide 2 \<lparr> trem = True, dysk = True, levelT = 0.2, levelD = 0.6 \<rparr>
        (boot\<lparr>stable_tremor := 1\<rparr>))) = 0 \<and>
   stable_dyskinesia (snd (decide 2 \<lparr> trem = True, dysk = True, levelT = 0.2, levelD = 0.6 \<rparr>
        (boot\<lparr>stable_tremor := 1\<rparr>))) = 1"
proof -
  let ?t1 = "\<lparr> trem = True, dysk = False, levelT = 0.5, levelD = 0 \<rparr>"
  let ?t2 = "\<lparr> trem = True, dysk = False, levelT = 0.7, levelD = 0 \<rparr>"
  let ?q = "\<lparr> trem = False, dysk = False, levelT = 0, levelD = 0 \<rparr>"
  let ?d1 = "\<lparr> trem = True, dysk = True, levelT = 0.2, levelD = 0.6 \<rparr>"
  let ?d2 = "\<lparr> trem = False, dysk = True, levelT = 0, levelD = 0.3 \<rparr>"
  let ?g1 = "boot\<lparr>stable_tremor := 1\<rparr>"
  have b: "1 \<le> sint (2 :: 32 word)" "stable_tremor boot = 0" "stable_dyskinesia boot = 0"
    by (simp_all add: boot_def)
  have w: "tremor_wins ?t1" "tremor_wins ?t2" "\<not> tremor_wins ?q" "\<not> dyskinesia_wins ?q"
    "dyskinesia_wins ?d1" "dyskinesia_wins ?d2" "\<not> tremor_wins ?d1"
    by (simp_all add: tremor_wins_def dyskinesia_wins_def)
  have short: "\<forall>sh\<in>set (drop (length ([]::detect list)) (fst (run_windows 2 ([] @ [?t1] @ [?q]) boot))).
      \<not> show_tremor sh"
    using stability_filter [OF b, of ?q boot "[]" "[?t1]"] w by simp
  have zero: "stable_tremor (snd (run_windows 2 ([?t1] @ [?q]) boot)) = 0 \<and>
      stable_dyskinesia (snd (run_windows 2 ([?t1] @ [?q]) boot)) = 0"
    using stability_filter [OF b, of ?q boot "[?t1]" "[]"] w by simp
  have full: "show_tremor (last (fst (run_windows 2 ([] @ [?t1, ?t2]) boot))) \<and>
      led_tremor (snd (run_windows 2 ([] @ [?t1, ?t2]) boot)) = levelT (last [?t1, ?t2])"
    using stability_filter [OF b, of ?q boot "[]" "[?t1, ?t2]"] w by simp
  have inc: "sint (stable_tremor (snd (run_windows 2 ([?t1] @ [?t2]) boot)))
      = sint (stable_tremor (snd (run_windows 2 [?t1] boot))) + 1"
    using stability_filter [OF b, of ?t2 boot "[?t1]" "[]"] w by simp
  have fulld: "show_dyskinesia (last (fst (run_windows 2 ([] @ [?d1, ?d2]) boot))) \<and>
      led_dyskinesia (snd (run_windows 2 ([] @ [?d1, ?d2]) boot)) = levelD (last [?d1, ?d2])"
    using stability_filter [OF b, of ?q boot "[]" "[?d1, ?d2]"] w by simp
  have reset: "stable_tremor (snd (decide 2 ?d1 ?g1)) = 0"
    "stable_dyskinesia (snd (decide 2 ?d1 ?g1)) = stable_dyskinesia ?g1 + 1"
    using stability_filter [OF b, of ?d1 ?g1 "[]" "[]"] w by blast+
  have len: "length (fst (run_windows 2 [?t1, ?q] boot)) = 2"
    using length_run_windows [of 2 "[?t1, ?q]" boot] by (simp del: run_windows.simps)
  from short len have "\<not> show_tremor (fst (run_windows 2 [?t1, ?q] boot) ! 0)"
    "\<not> show_tremor (fst (run_windows 2 [?t1, ?q] boot) ! 1)"
    by (simp_all del: run_windows.simps)
  with zero full inc fulld reset show ?thesis
    by (simp add: boot_def del: run_windows.simps)
qed

text \<open>
  A window in which tremor loses the tie-break: the dyskinesia counter is 1 afterwards,
  not 0.
\<close>

theorem stability_filter_counterexample:
  "trem \<lparr> trem = True, dysk = True, levelT = 0.2, levelD = 0.5 \<rparr> \<and>
   \<not> tremor_wins \<lparr> trem = True, dysk = True, levelT = 0.2, levelD = 0.5 \<rparr> \<and>
   \<not> (stable_tremor (snd (decide STABLE_WINDOWS \<lparr> trem = True, dysk = True, levelT = 0.2, levelD = 0.5 \<rparr> boot)) = 0 \<and>
      stable_dyskinesia (snd (decide STABLE_WINDOWS \<lparr> trem = True, dysk = True, levelT = 0.2, levelD = 0.5 \<rparr> boot)) = 0)"
  by (simp add: tremor_wins_def dyskinesia_wins_def decide_def stability_def led_feedback_def
        boot_def STABLE_WINDOWS_def Let_def)

end
